theory Spec2Isabelle
  imports Main
begin

section \<open>The license manager: data model\<close>

text \<open>
  A shallow embedding of the license routes of \<^verbatim>\<open>src/index.js\<close>:
  \<^verbatim>\<open>POST /api/licenses/generate\<close>, \<^verbatim>\<open>POST /api/licenses/validate\<close> and
  \<^verbatim>\<open>POST /api/licenses/:licenseId/revoke\<close>, over the two Sequelize models
  \<^verbatim>\<open>License\<close> and \<^verbatim>\<open>LicenseActivation\<close>.

  \<^item> A \<^verbatim>\<open>Date\<close> is its number of milliseconds since the epoch, an unbounded integer.
    The validate route reads the clock more than once (\<^verbatim>\<open>new Date()\<close>,
    \<^verbatim>\<open>moment()\<close>, the \<^verbatim>\<open>DataTypes.NOW\<close> defaults); the model gives a validate
    request one instant \<open>now\<close>. The generate route gets its two reads apart, since
    the two dates it stores come from one each.
  \<^item> The two tables are lists of rows, in insertion order. A handler runs to its end
    before the next one starts (no interleaving of requests).
  \<^item> A primary key (\<^verbatim>\<open>DataTypes.UUIDV4\<close>) is a natural number, the one its 16 bytes
    denote, and a new row gets one that no row of its table has.
  \<^item> The columns \<^verbatim>\<open>createdAt\<close> and \<^verbatim>\<open>updatedAt\<close> that Sequelize maintains by itself
    are left out; no route reads them.
  \<^item> A string is a list of characters, none of them the NUL character, for which the
    database has no text. The failures of the storage that the model has
    are those that a request can cause: a key that is taken, a value that its column
    does not take, an id that is not a UUID. A lost connection is not modelled, and the
    counter of a license stays within its \<^verbatim>\<open>INTEGER\<close> column.
\<close>

type_synonym time = int
type_synonym uuid = nat

datatype license_status = Active | Expired | Revoked | Suspended

datatype activation_status = Act_Active | Act_Inactive | Act_Revoked

text \<open>
  The values the revoke route writes into the JSONB column \<^verbatim>\<open>metadata\<close>: a string, or a
  \<^verbatim>\<open>Date\<close> (stored as its ISO string, which is one-to-one with its instant).
\<close>

datatype json = JString string | JDate time

record license =
  lic_id :: uuid
  licenseKey :: string
  pluginId :: string
  customerId :: string
  customerEmail :: string
  customerName :: string
  licenseType :: string
  status :: license_status
  issuedAt :: time
  expiresAt :: time
  activatedAt :: "time option"
  activatedBy :: "string option"
  activationCount :: int
  maxActivations :: int
  metadata :: "string \<rightharpoonup> json"

record activation =
  act_id :: uuid
  licenseId :: uuid
  machineId :: string
  ipAddress :: "string option"
  userAgent :: "string option"
  act_activatedAt :: time
  lastSeenAt :: time
  act_status :: activation_status

record store =
  licenses :: "license list"
  activations :: "activation list"

definition empty_store :: store where
  "empty_store = \<lparr>licenses = [], activations = []\<rparr>"

text \<open>The string of a status, as \<^verbatim>\<open>'License is ' + license.status\<close> prints it.\<close>

fun status_str :: "license_status \<Rightarrow> string" where
  "status_str Active = ''active''"
| "status_str Expired = ''expired''"
| "status_str Revoked = ''revoked''"
| "status_str Suspended = ''suspended''"

text \<open>
  A field of a request body is absent (\<open>None\<close>) or a string. JavaScript's \<^verbatim>\<open>!x\<close> holds of
  an absent field and of the empty string; \<open>truthy\<close> returns the string otherwise.
\<close>

fun truthy :: "string option \<Rightarrow> string option" where
  "truthy None = None"
| "truthy (Some []) = None"
| "truthy (Some (c # cs)) = Some (c # cs)"

text \<open>A key that no row has: the \<^verbatim>\<open>UUIDV4\<close> default of a new row.\<close>

fun fresh_uuid :: "uuid list \<Rightarrow> uuid" where
  "fresh_uuid [] = 0"
| "fresh_uuid (x # xs) = max (Suc x) (fresh_uuid xs)"

text \<open>
  What the columns of the two tables take: \<^verbatim>\<open>DataTypes.STRING\<close> is
  \<^verbatim>\<open>VARCHAR(255)\<close>, at most 255 characters, and \<^verbatim>\<open>DataTypes.INTEGER\<close> is a signed
  32-bit integer. The database rejects an \<^verbatim>\<open>INSERT\<close> with any other value, the
  \<^verbatim>\<open>create\<close> call throws, and the \<^verbatim>\<open>catch\<close> of the route answers with status 500.
\<close>

definition fits_STRING :: "string \<Rightarrow> bool" where
  "fits_STRING x = (length x \<le> 255)"

fun fits_STRING_opt :: "string option \<Rightarrow> bool" where
  "fits_STRING_opt None = True"
| "fits_STRING_opt (Some x) = fits_STRING x"

definition fits_INTEGER :: "int \<Rightarrow> bool" where
  "fits_INTEGER k = (- 2147483648 \<le> k \<and> k \<le> 2147483647)"

section \<open>The queries and updates of the two models\<close>

text \<open>\<^verbatim>\<open>License.findOne({ where: { licenseKey, pluginId } })\<close>\<close>

definition License_findOne :: "store \<Rightarrow> string \<Rightarrow> string \<Rightarrow> license option" where
  "License_findOne s k p = find (\<lambda>l. licenseKey l = k \<and> pluginId l = p) (licenses s)"

text \<open>\<^verbatim>\<open>License.findByPk(licenseId)\<close>\<close>

definition License_findByPk :: "store \<Rightarrow> uuid \<Rightarrow> license option" where
  "License_findByPk s i = find (\<lambda>l. lic_id l = i) (licenses s)"

text \<open>\<^verbatim>\<open>license.update({...})\<close>: the row of the instance's primary key gets the new values.\<close>

definition License_update :: "store \<Rightarrow> uuid \<Rightarrow> (license \<Rightarrow> license) \<Rightarrow> store" where
  "License_update s i f = s\<lparr>licenses := map (\<lambda>l. if lic_id l = i then f l else l) (licenses s)\<rparr>"

text \<open>The association \<^verbatim>\<open>license.activations\<close> (\<^verbatim>\<open>include: LicenseActivation\<close>).\<close>

definition license_activations :: "store \<Rightarrow> uuid \<Rightarrow> activation list" where
  "license_activations s i = filter (\<lambda>a. licenseId a = i) (activations s)"

text \<open>\<^verbatim>\<open>license.activations.filter(a => a.status === 'active').length\<close>\<close>

definition activeActivations :: "store \<Rightarrow> uuid \<Rightarrow> int" where
  "activeActivations s i =
     int (length (filter (\<lambda>a. act_status a = Act_Active) (license_activations s i)))"

text \<open>\<^verbatim>\<open>LicenseActivation.findOne({ where: { licenseId, machineId, status: 'active' } })\<close>\<close>

definition Activation_findOne :: "store \<Rightarrow> uuid \<Rightarrow> string \<Rightarrow> activation option" where
  "Activation_findOne s i m =
     find (\<lambda>a. licenseId a = i \<and> machineId a = m \<and> act_status a = Act_Active) (activations s)"

text \<open>
  The row that \<^verbatim>\<open>LicenseActivation.create({ licenseId, machineId, ipAddress, userAgent })\<close>
  inserts: the columns \<^verbatim>\<open>activatedAt\<close> and \<^verbatim>\<open>lastSeenAt\<close> default to now,
  \<^verbatim>\<open>status\<close> to active.
\<close>

definition Activation_insert ::
  "store \<Rightarrow> time \<Rightarrow> uuid \<Rightarrow> string \<Rightarrow> string option \<Rightarrow> string option \<Rightarrow> store" where
  "Activation_insert s now i m ip ua =
     s\<lparr>activations := activations s @
         [\<lparr>act_id = fresh_uuid (map act_id (activations s)), licenseId = i, machineId = m,
           ipAddress = ip, userAgent = ua, act_activatedAt = now, lastSeenAt = now,
           act_status = Act_Active\<rparr>]\<rparr>"

text \<open>
  \<^verbatim>\<open>LicenseActivation.create\<close> itself: \<open>None\<close> when it throws, which it does for a
  machine id or an address that the \<^verbatim>\<open>STRING\<close> columns \<^verbatim>\<open>machine_id\<close> and
  \<^verbatim>\<open>ip_address\<close> do not take (\<^verbatim>\<open>user_agent\<close> is \<^verbatim>\<open>TEXT\<close>, of any length).
\<close>

definition Activation_create ::
  "store \<Rightarrow> time \<Rightarrow> uuid \<Rightarrow> string \<Rightarrow> string option \<Rightarrow> string option \<Rightarrow> store option" where
  "Activation_create s now i m ip ua =
     (if fits_STRING m \<and> fits_STRING_opt ip
      then Some (Activation_insert s now i m ip ua) else None)"

text \<open>\<^verbatim>\<open>existingActivation.update({ lastSeenAt: new Date() })\<close>\<close>

definition Activation_touch :: "store \<Rightarrow> uuid \<Rightarrow> time \<Rightarrow> store" where
  "Activation_touch s i now =
     s\<lparr>activations := map (\<lambda>a. if act_id a = i then a\<lparr>lastSeenAt := now\<rparr> else a) (activations s)\<rparr>"

text \<open>
  \<^verbatim>\<open>LicenseActivation.update({ status: 'revoked' }, { where: { licenseId, status: 'active' } })\<close>
\<close>

definition Activation_revoke_all :: "store \<Rightarrow> uuid \<Rightarrow> store" where
  "Activation_revoke_all s i =
     s\<lparr>activations :=
         map (\<lambda>a. if licenseId a = i \<and> act_status a = Act_Active
                  then a\<lparr>act_status := Act_Revoked\<rparr> else a) (activations s)\<rparr>"

section \<open>Validation\<close>

text \<open>
  \<^verbatim>\<open>moment(a).diff(moment(b), 'days')\<close>: the difference in milliseconds over 864e5,
  truncated towards zero (moment's \<^verbatim>\<open>absFloor\<close>). The server's zone is UTC (the
  repository's Dockerfile sets none), so moment's correction for a change of the UTC
  offset is zero.
\<close>

definition ms_per_day :: int where
  "ms_per_day = 86400000"

definition moment_diff_days :: "time \<Rightarrow> time \<Rightarrow> int" where
  "moment_diff_days a b =
     (if a - b < 0 then - ((b - a) div ms_per_day) else (a - b) div ms_per_day)"

text \<open>The test of line 1317, \<^verbatim>\<open>license.expiresAt < new Date()\<close>.\<close>

definition is_expired :: "license \<Rightarrow> time \<Rightarrow> bool" where
  "is_expired l now = (expiresAt l < now)"

record validate_body =
  v_licenseKey :: "string option"
  v_pluginId :: "string option"
  v_machineId :: "string option"

record warning_thresholds =
  show90DayWarning :: bool
  show60DayWarning :: bool
  show45DayWarning :: bool
  show30DayWarning :: bool
  show15DayWarning :: bool
  showDailyWarning :: bool

record verdict =
  r_licenseId :: uuid
  r_status :: license_status
  r_licenseType :: string
  r_expiresAt :: time
  daysRemaining :: int
  r_activationCount :: int
  r_maxActivations :: int
  warningThresholds :: warning_thresholds

text \<open>
  A response of the validate route: \<open>Invalid code message\<close> is
  \<^verbatim>\<open>{ valid: false, message }\<close> under the HTTP status \<open>code\<close>, \<open>Valid v\<close> is
  \<^verbatim>\<open>{ valid: true, ... }\<close>.
\<close>

datatype validate_result = Invalid nat string | Valid verdict

fun is_valid :: "validate_result \<Rightarrow> bool" where
  "is_valid (Valid v) = True"
| "is_valid (Invalid c m) = False"

text \<open>The body of a valid response, from the license instance as it is when the response is sent.\<close>

definition valid_response :: "license \<Rightarrow> int \<Rightarrow> validate_result" where
  "valid_response l d =
     Valid \<lparr>r_licenseId = lic_id l, r_status = status l, r_licenseType = licenseType l,
            r_expiresAt = expiresAt l, daysRemaining = d,
            r_activationCount = activationCount l, r_maxActivations = maxActivations l,
            warningThresholds =
              \<lparr>show90DayWarning = (d \<le> 90), show60DayWarning = (d \<le> 60),
               show45DayWarning = (d \<le> 45), show30DayWarning = (d \<le> 30),
               show15DayWarning = (d \<le> 15), showDailyWarning = (d \<le> 7)\<rparr>\<rparr>"

text \<open>
  The activation part of the route (lines 1337 to 1376), for a machine id that is
  given: \<open>ip\<close> and \<open>ua\<close> are \<^verbatim>\<open>req.ip\<close> and the \<^verbatim>\<open>User-Agent\<close> header. When
  \<^verbatim>\<open>LicenseActivation.create\<close> throws, nothing has been written yet and the
  \<^verbatim>\<open>catch\<close> of lines 1397 to 1403 answers with status 500.
\<close>

definition handle_activation ::
  "store \<Rightarrow> time \<Rightarrow> license \<Rightarrow> int \<Rightarrow> string \<Rightarrow> string option \<Rightarrow> string option
     \<Rightarrow> store \<times> validate_result" where
  "handle_activation s now l d m ip ua =
     (case Activation_findOne s (lic_id l) m of
        None \<Rightarrow>
          if activeActivations s (lic_id l) \<ge> maxActivations l
          then (s, Invalid 200 ''Maximum number of activations reached'')
          else
            (case Activation_create s now (lic_id l) m ip ua of
               None \<Rightarrow> (s, Invalid 500 ''Internal server error'')
             | Some s1 \<Rightarrow>
                 let upd = (\<lambda>x. x\<lparr>activationCount := activationCount l + 1,
                                   activatedAt := Some now, activatedBy := Some m\<rparr>);
                     s2 = License_update s1 (lic_id l) upd
                 in (s2, valid_response (upd l) d))
      | Some e \<Rightarrow> (Activation_touch s (act_id e) now, valid_response l d))"

text \<open>\<^verbatim>\<open>app.post('/api/licenses/validate', ...)\<close>\<close>

definition validate ::
  "store \<Rightarrow> time \<Rightarrow> string option \<Rightarrow> string option \<Rightarrow> validate_body
     \<Rightarrow> store \<times> validate_result" where
  "validate s now ip ua b =
     (case (truthy (v_licenseKey b), truthy (v_pluginId b)) of
        (Some k, Some p) \<Rightarrow>
          (case License_findOne s k p of
             None \<Rightarrow> (s, Invalid 200 ''License not found'')
           | Some l \<Rightarrow>
               if is_expired l now
               then (License_update s (lic_id l) (\<lambda>x. x\<lparr>status := Expired\<rparr>),
                     Invalid 200 ''License has expired'')
               else if status l \<noteq> Active
               then (s, Invalid 200 (''License is '' @ status_str (status l)))
               else
                 let d = moment_diff_days (expiresAt l) now in
                 (case truthy (v_machineId b) of
                    Some m \<Rightarrow> handle_activation s now l d m ip ua
                  | None \<Rightarrow> (s, valid_response l d)))
      | _ \<Rightarrow> (s, Invalid 400 ''License key and plugin ID are required''))"

text \<open>The body that asks about the stored license \<open>l\<close>, with the machine id \<open>m\<close>.\<close>

definition request_for :: "license \<Rightarrow> string option \<Rightarrow> validate_body" where
  "request_for l m =
     \<lparr>v_licenseKey = Some (licenseKey l), v_pluginId = Some (pluginId l), v_machineId = m\<rparr>"

text \<open>
  Validate calls one after the other, each on the store the one before has left: a call
  is its instant, \<^verbatim>\<open>req.ip\<close>, the \<^verbatim>\<open>User-Agent\<close> header and the body.
\<close>

type_synonym validate_call = "time \<times> string option \<times> string option \<times> validate_body"

fun validate_all :: "store \<Rightarrow> validate_call list \<Rightarrow> store \<times> validate_result list" where
  "validate_all s [] = (s, [])"
| "validate_all s ((now, ip, ua, b) # cs) =
     (case validate s now ip ua b of
        (s1, r) \<Rightarrow> (case validate_all s1 cs of (s2, rs) \<Rightarrow> (s2, r # rs)))"

section \<open>Generation\<close>

text \<open>\<^verbatim>\<open>CONFIG.LICENSE_VALIDITY_DAYS\<close>\<close>

definition LICENSE_VALIDITY_DAYS :: "(string \<times> int) list" where
  "LICENSE_VALIDITY_DAYS = [(''1-year'', 365), (''3-year'', 1095), (''5-year'', 1825)]"

text \<open>
  The instant of midnight UTC of a day of the proleptic Gregorian calendar, which is
  what \<^verbatim>\<open>new Date('YYYY-MM-DD')\<close> denotes: the day number since 1970-01-01, times the
  milliseconds of a day.
\<close>

definition days_from_civil :: "int \<Rightarrow> int \<Rightarrow> int \<Rightarrow> int" where
  "days_from_civil y m d =
     (let y1 = (if m \<le> 2 then y - 1 else y);
          era = y1 div 400;
          yoe = y1 - era * 400;
          doy = (153 * ((m + 9) mod 12) + 2) div 5 + d - 1;
          doe = yoe * 365 + yoe div 4 - yoe div 100 + doy
      in era * 146097 + doe - 719468)"

definition Date_ymd :: "int \<Rightarrow> int \<Rightarrow> int \<Rightarrow> time" where
  "Date_ymd y m d = days_from_civil y m d * ms_per_day"

text \<open>\<^verbatim>\<open>new Date('2099-12-31')\<close>\<close>

definition perpetual_expiry :: time where
  "perpetual_expiry = Date_ymd 2099 12 31"

text \<open>
  The names that every JavaScript object inherits from \<^verbatim>\<open>Object.prototype\<close>: the
  lookup \<^verbatim>\<open>CONFIG.LICENSE_VALIDITY_DAYS[licenseType]\<close> finds a function (or, for
  \<^verbatim>\<open>__proto__\<close>, an object) under them, which is not false.
\<close>

definition Object_prototype_keys :: "string list" where
  "Object_prototype_keys =
     [''constructor'', ''__defineGetter__'', ''__defineSetter__'', ''hasOwnProperty'',
      ''__lookupGetter__'', ''__lookupSetter__'', ''isPrototypeOf'', ''propertyIsEnumerable'',
      ''toString'', ''valueOf'', ''__proto__'', ''toLocaleString'']"

text \<open>
  Lines 1244 to 1253: the expiry of a license type, with \<open>now\<close> the instant that
  \<^verbatim>\<open>moment()\<close> reads at line 1252. In UTC, \<^verbatim>\<open>moment().add(days, 'days')\<close> adds
  \<open>days\<close> times 864e5 milliseconds. \<open>Invalid_type\<close> is where the route answers
  \<^verbatim>\<open>Invalid license type\<close>. Under an inherited name the route goes on with a date, and
  \<^verbatim>\<open>License.create\<close> throws on a license type that the \<^verbatim>\<open>ENUM\<close> column does not
  have: \<open>Unstorable_type\<close>.
\<close>

datatype expiry = Expires time | Invalid_type | Unstorable_type

definition expiry_of :: "time \<Rightarrow> string \<Rightarrow> expiry" where
  "expiry_of now t =
     (if t = ''perpetual'' then Expires perpetual_expiry
      else (case map_of LICENSE_VALIDITY_DAYS t of
              None \<Rightarrow> if t \<in> set Object_prototype_keys then Unstorable_type else Invalid_type
            | Some days \<Rightarrow>
                if days = 0 then Invalid_type else Expires (now + days * ms_per_day)))"

record generate_body =
  g_pluginId :: "string option"
  g_customerName :: "string option"
  g_customerEmail :: "string option"
  g_licenseType :: "string option"
  g_maxActivations :: "int option"

datatype generate_result = Generate_Error nat string | Generated license

text \<open>
  \<^verbatim>\<open>License.create\<close> with the row it is to insert: \<open>None\<close> when it throws, on a key
  that a row already has (the unique index on \<^verbatim>\<open>license_key\<close>) and on a value that its
  column does not take.
\<close>

definition License_create :: "store \<Rightarrow> license \<Rightarrow> store option" where
  "License_create s l =
     (if licenseKey l \<notin> set (map licenseKey (licenses s)) \<and> fits_STRING (licenseKey l) \<and>
         fits_STRING (pluginId l) \<and> fits_STRING (customerId l) \<and>
         fits_STRING (customerEmail l) \<and> fits_STRING (customerName l) \<and>
         fits_INTEGER (maxActivations l)
      then Some (s\<lparr>licenses := licenses s @ [l]\<rparr>) else None)"

text \<open>
  \<^verbatim>\<open>app.post('/api/licenses/generate', ...)\<close>. The route reads the clock twice: \<open>now\<close> is
  the instant of \<^verbatim>\<open>moment()\<close> at line 1252, from which \<^verbatim>\<open>expiresAt\<close> is computed,
  and \<open>created\<close> the instant that \<^verbatim>\<open>License.create\<close> reads afterwards for the default
  \<^verbatim>\<open>DataTypes.NOW\<close> of \<^verbatim>\<open>issuedAt\<close>. The two digests are inputs: \<open>key\<close> is what
  \<^verbatim>\<open>generateLicenseKey(pluginId, customerEmail)\<close> returns (a SHA-256 digest of the two,
  the time and a random salt, formatted), \<open>cid\<close> what \<^verbatim>\<open>generateCustomerId(customerEmail)\<close>
  returns. \<^verbatim>\<open>License.create\<close> fills in the defaults of the model; when it throws, the
  route answers with status 500.
\<close>

definition generate ::
  "store \<Rightarrow> time \<Rightarrow> time \<Rightarrow> string \<Rightarrow> string \<Rightarrow> generate_body
     \<Rightarrow> store \<times> generate_result" where
  "generate s now created key cid b =
     (case truthy (g_pluginId b) of
        None \<Rightarrow> (s, Generate_Error 400 ''Missing required fields'')
      | Some p \<Rightarrow>
     (case truthy (g_customerName b) of
        None \<Rightarrow> (s, Generate_Error 400 ''Missing required fields'')
      | Some n \<Rightarrow>
     (case truthy (g_customerEmail b) of
        None \<Rightarrow> (s, Generate_Error 400 ''Missing required fields'')
      | Some e \<Rightarrow>
     (case truthy (g_licenseType b) of
        None \<Rightarrow> (s, Generate_Error 400 ''Missing required fields'')
      | Some t \<Rightarrow>
     (case expiry_of now t of
        Invalid_type \<Rightarrow> (s, Generate_Error 400 ''Invalid license type'')
      | Unstorable_type \<Rightarrow> (s, Generate_Error 500 ''Failed to generate license'')
      | Expires x \<Rightarrow>
          let l = \<lparr>lic_id = fresh_uuid (map lic_id (licenses s)), licenseKey = key,
                   pluginId = p, customerId = cid, customerEmail = e, customerName = n,
                   licenseType = t, status = Active, issuedAt = created, expiresAt = x,
                   activatedAt = None, activatedBy = None, activationCount = 0,
                   maxActivations = (case g_maxActivations b of None \<Rightarrow> 1 | Some k \<Rightarrow> k),
                   metadata = Map.empty\<rparr>
          in (case License_create s l of
                None \<Rightarrow> (s, Generate_Error 500 ''Failed to generate license'')
              | Some s1 \<Rightarrow> (s1, Generated l)))))))"

section \<open>Revocation\<close>

text \<open>
  The \<^verbatim>\<open>:licenseId\<close> of the URL is any string, and the database reads it as a value of
  the \<^verbatim>\<open>UUID\<close> column: 32 hexadecimal digits of either case, with an optional hyphen
  after any group of four digits but the last, and optional braces around the whole. The
  key of the model is the number that the 16 bytes denote. For any other string the
  query fails, \<^verbatim>\<open>findByPk\<close> throws and the \<^verbatim>\<open>catch\<close> of the route answers with
  status 500.
\<close>

definition hex_digits :: "(char \<times> nat) list" where
  "hex_digits =
     [(CHR ''0'', 0), (CHR ''1'', 1), (CHR ''2'', 2), (CHR ''3'', 3), (CHR ''4'', 4),
      (CHR ''5'', 5), (CHR ''6'', 6), (CHR ''7'', 7), (CHR ''8'', 8), (CHR ''9'', 9),
      (CHR ''a'', 10), (CHR ''b'', 11), (CHR ''c'', 12), (CHR ''d'', 13), (CHR ''e'', 14),
      (CHR ''f'', 15), (CHR ''A'', 10), (CHR ''B'', 11), (CHR ''C'', 12), (CHR ''D'', 13),
      (CHR ''E'', 14), (CHR ''F'', 15)]"

text \<open>For each of the 16 bytes, whether a hyphen may follow it.\<close>

definition uuid_hyphens :: "bool list" where
  "uuid_hyphens =
     [False, True, False, True, False, True, False, True,
      False, True, False, True, False, True, False, False]"

fun skip_hyphen :: "string \<Rightarrow> string" where
  "skip_hyphen [] = []"
| "skip_hyphen (c # r) = (if c = CHR ''-'' then r else c # r)"

fun read_uuid :: "bool list \<Rightarrow> nat \<Rightarrow> string \<Rightarrow> (nat \<times> string) option" where
  "read_uuid [] acc src = Some (acc, src)"
| "read_uuid (h # hs) acc (a # b # rest) =
     (case (map_of hex_digits a, map_of hex_digits b) of
        (Some x, Some y) \<Rightarrow>
          read_uuid hs (acc * 256 + 16 * x + y) (if h then skip_hyphen rest else rest)
      | _ \<Rightarrow> None)"
| "read_uuid (h # hs) acc src = None"

definition uuid_of_string :: "string \<Rightarrow> uuid option" where
  "uuid_of_string s =
     (case s of
        c # r \<Rightarrow>
          if c = CHR ''{''
          then (case read_uuid uuid_hyphens 0 r of
                  Some (v, rest) \<Rightarrow> if rest = ''}'' then Some v else None
                | None \<Rightarrow> None)
          else (case read_uuid uuid_hyphens 0 s of
                  Some (v, rest) \<Rightarrow> if rest = [] then Some v else None
                | None \<Rightarrow> None)
      | [] \<Rightarrow> None)"

datatype revoke_result = Revoke_Error nat string | Revoke_Success string

text \<open>
  \<^verbatim>\<open>app.post('/api/licenses/:licenseId/revoke', ...)\<close>, with \<open>sid\<close> the id of the URL
  and \<open>reason\<close> the field of the body. The new metadata is
  \<^verbatim>\<open>{ ...license.metadata, revocationReason: reason, revokedAt: new Date() }\<close>;
  a key whose value is undefined is not stored (JSON has no undefined).
\<close>

definition revoke :: "store \<Rightarrow> time \<Rightarrow> string \<Rightarrow> string option \<Rightarrow> store \<times> revoke_result" where
  "revoke s now sid reason =
     (case uuid_of_string sid of
        None \<Rightarrow> (s, Revoke_Error 500 ''Failed to revoke license'')
      | Some i \<Rightarrow>
     (case License_findByPk s i of
        None \<Rightarrow> (s, Revoke_Error 404 ''License not found'')
      | Some l \<Rightarrow>
          let s1 = License_update s (lic_id l)
                     (\<lambda>x. x\<lparr>status := Revoked,
                            metadata := (metadata l)(''revocationReason'' := map_option JString reason,
                                                    ''revokedAt'' \<mapsto> JDate now)\<rparr>);
              s2 = Activation_revoke_all s1 i
          in (s2, Revoke_Success ''License revoked successfully'')))"

section \<open>Sequences of requests\<close>

datatype request =
    Generate time time string string generate_body
  | Validate time "string option" "string option" validate_body
  | Revoke time string "string option"

fun handle :: "store \<Rightarrow> request \<Rightarrow> store" where
  "handle s (Generate now created key cid b) = fst (generate s now created key cid b)"
| "handle s (Validate now ip ua b) = fst (validate s now ip ua b)"
| "handle s (Revoke now sid reason) = fst (revoke s now sid reason)"

text \<open>The store after the requests \<open>rs\<close>, served in this order from the store \<open>s\<close>.\<close>

definition serve :: "store \<Rightarrow> request list \<Rightarrow> store" where
  "serve s rs = foldl handle s rs"

section \<open>Well-formed stores\<close>

text \<open>
  What the database keeps by itself: the primary keys of each table are distinct, the
  unique index on \<^verbatim>\<open>license_key\<close>, and the foreign key of \<^verbatim>\<open>license_id\<close>
  (\<^verbatim>\<open>references: { model: License, key: 'id' }\<close>).
\<close>

definition wf_store :: "store \<Rightarrow> bool" where
  "wf_store s =
     (distinct (map lic_id (licenses s)) \<and> distinct (map licenseKey (licenses s)) \<and>
      distinct (map act_id (activations s)) \<and>
      (\<forall>a\<in>set (activations s). licenseId a \<in> set (map lic_id (licenses s))))"

text \<open>
  Validate calls for the stored license \<open>l\<close>: each is its instant, \<^verbatim>\<open>req.ip\<close>, the
  \<^verbatim>\<open>User-Agent\<close> header and the machine id of the body.
\<close>

definition calls_for ::
  "license \<Rightarrow> (time \<times> string option \<times> string option \<times> string option) list
     \<Rightarrow> validate_call list" where
  "calls_for l cs = map (\<lambda>(now, ip, ua, m). (now, ip, ua, request_for l m)) cs"

text \<open>Each warning flag of a verdict says that the days remaining are at most its threshold.\<close>

definition flags_of :: "verdict \<Rightarrow> bool" where
  "flags_of v =
     (show90DayWarning (warningThresholds v) = (daysRemaining v \<le> 90)
    \<and> show60DayWarning (warningThresholds v) = (daysRemaining v \<le> 60)
    \<and> show45DayWarning (warningThresholds v) = (daysRemaining v \<le> 45)
    \<and> show30DayWarning (warningThresholds v) = (daysRemaining v \<le> 30)
    \<and> show15DayWarning (warningThresholds v) = (daysRemaining v \<le> 15)
    \<and> showDailyWarning (warningThresholds v) = (daysRemaining v \<le> 7))"

section \<open>Example stores\<close>

text \<open>A store with one license, active and not yet used.\<close>

definition demo_license :: license where
  "demo_license =
     \<lparr>lic_id = 0, licenseKey = ''CB-1A2B-3C4D-5E6F-7A8B-9C0D'', pluginId = ''advanced-analytics'',
      customerId = ''0123456789ABCDEF'', customerEmail = ''ann@example.com'',
      customerName = ''Ann'', licenseType = ''1-year'', status = Active, issuedAt = 0,
      expiresAt = 31536000000, activatedAt = None, activatedBy = None, activationCount = 0,
      maxActivations = 1, metadata = Map.empty\<rparr>"

definition demo_store :: store where
  "demo_store = \<lparr>licenses = [demo_license], activations = []\<rparr>"

text \<open>The same license once revoked.\<close>

definition revoked_license :: license where
  "revoked_license = demo_license\<lparr>status := Revoked\<rparr>"

definition revoked_store :: store where
  "revoked_store = \<lparr>licenses = [revoked_license], activations = []\<rparr>"

text \<open>The same license once machine \<open>A\<close> has activated it, at instant 1000.\<close>

definition demo_activation :: activation where
  "demo_activation =
     \<lparr>act_id = 0, licenseId = 0, machineId = ''A'', ipAddress = Some ''10.0.0.7'',
      userAgent = Some ''plugin/1.0'', act_activatedAt = 1000, lastSeenAt = 1000,
      act_status = Act_Active\<rparr>"

definition activated_license :: license where
  "activated_license =
     demo_license\<lparr>activationCount := 1, activatedAt := Some 1000, activatedBy := Some ''A''\<rparr>"

definition activated_store :: store where
  "activated_store = \<lparr>licenses = [activated_license], activations = [demo_activation]\<rparr>"

text \<open>The verdict on the unused license forty days and five seconds before it expires.\<close>

definition demo_verdict :: verdict where
  "demo_verdict =
     \<lparr>r_licenseId = 0, r_status = Active, r_licenseType = ''1-year'',
      r_expiresAt = 31536000000, daysRemaining = 40, r_activationCount = 0,
      r_maxActivations = 1,
      warningThresholds =
        \<lparr>show90DayWarning = True, show60DayWarning = True, show45DayWarning = True,
         show30DayWarning = False, show15DayWarning = False, showDailyWarning = False\<rparr>\<rparr>"

text \<open>Bodies of generate requests: a three-year license, a perpetual one, and one with no activations.\<close>

definition three_year_body :: generate_body where
  "three_year_body =
     \<lparr>g_pluginId = Some ''advanced-analytics'', g_customerName = Some ''Ann'',
      g_customerEmail = Some ''ann@example.com'', g_licenseType = Some ''3-year'',
      g_maxActivations = None\<rparr>"

definition perpetual_body :: generate_body where
  "perpetual_body = three_year_body\<lparr>g_licenseType := Some ''perpetual''\<rparr>"

definition three_year_license :: license where
  "three_year_license =
     \<lparr>lic_id = 0, licenseKey = ''CB-1A2B'', pluginId = ''advanced-analytics'',
      customerId = ''0123'', customerEmail = ''ann@example.com'', customerName = ''Ann'',
      licenseType = ''3-year'', status = Active, issuedAt = 1000,
      expiresAt = 94608001000, activatedAt = None, activatedBy = None, activationCount = 0,
      maxActivations = 1, metadata = Map.empty\<rparr>"

definition perpetual_license :: license where
  "perpetual_license =
     three_year_license\<lparr>licenseType := ''perpetual'', expiresAt := perpetual_expiry\<rparr>"

definition zero_body :: generate_body where
  "zero_body = three_year_body\<lparr>g_maxActivations := Some 0\<rparr>"

text \<open>A machine id of 256 characters, one more than its column takes.\<close>

definition long_machine_id :: string where
  "long_machine_id = CHR ''x'' # replicate 255 (CHR ''x'')"

text \<open>The ids of two URLs: a UUID that no license of the examples has, and a license key.\<close>

definition unknown_id :: string where
  "unknown_id = ''00000000-0000-0000-0000-000000000007''"

definition key_as_id :: string where
  "key_as_id = ''CB-1A2B-3C4D-5E6F-7A8B-9C0D''"

text \<open>Three validate calls for a license: machine \<open>A\<close>, no machine, machine \<open>B\<close>.\<close>

definition demo_calls :: "(time \<times> string option \<times> string option \<times> string option) list" where
  "demo_calls =
     [(2000, None, None, Some ''A''), (3000, None, None, None),
      (4000, Some ''10.0.0.7'', None, Some ''B'')]"

section \<open>The invariant of the activation counter\<close>

text \<open>
  What the routes keep of a license's counter: it is the number of the license's
  Activations, whatever their status; and while the license's metadata has no
  \<^verbatim>\<open>revokedAt\<close>, all of them are active.
\<close>

definition count_inv :: "store \<Rightarrow> bool" where
  "count_inv s =
     (\<forall>l\<in>set (licenses s).
        activationCount l = int (length (license_activations s (lic_id l))) \<and>
        (metadata l ''revokedAt'' = None \<longrightarrow>
           (\<forall>a\<in>set (license_activations s (lic_id l)). act_status a = Act_Active)))"
text \<open>
  Requests served from the empty store: a one-year license is generated at instant 0,
  machine \<open>A\<close> validates it at instant 1000, and then the license is revoked, under
  the id that the model gives the first license.
\<close>

definition demo_id :: string where
  "demo_id = ''00000000-0000-0000-0000-000000000000''"

definition one_year_body :: generate_body where
  "one_year_body = three_year_body\<lparr>g_licenseType := Some ''1-year''\<rparr>"

definition activate_requests :: "request list" where
  "activate_requests =
     [Generate 0 0 ''CB-1A2B-3C4D-5E6F-7A8B-9C0D'' ''0123456789ABCDEF'' one_year_body,
      Validate 1000 (Some ''10.0.0.7'') (Some ''plugin/1.0'') (request_for demo_license (Some ''A''))]"

definition revoke_requests :: "request list" where
  "revoke_requests = activate_requests @ [Revoke 5000 demo_id (Some ''chargeback'')]"

section \<open>Basic facts\<close>

lemma find_distinct_key:
  "distinct (map f xs) \<Longrightarrow> x \<in> set xs \<Longrightarrow> \<forall>y. P y \<longrightarrow> f y = f x \<Longrightarrow> P x \<Longrightarrow> find P xs = Some x"
proof (induction xs)
  case Nil
  then show ?case by simp
next
  case (Cons y ys)
  show ?case
  proof (cases "P y")
    case True
    with Cons.prems have "f y = f x" by blast
    with Cons.prems(1,2) have "y = x" by (auto simp: image_iff)
    with True show ?thesis by simp
  next
    case False
    with Cons.prems have "x \<in> set ys" by auto
    moreover from Cons.prems have "distinct (map f ys)" by simp
    ultimately have "find P ys = Some x" using Cons.IH Cons.prems(3,4) by blast
    with False show ?thesis by simp
  qed
qed

lemma License_findOne_own:
  "wf_store s \<Longrightarrow> l \<in> set (licenses s) \<Longrightarrow> License_findOne s (licenseKey l) (pluginId l) = Some l"
proof -
  assume wf: "wf_store s" and mem: "l \<in> set (licenses s)"
  from wf have d: "distinct (map licenseKey (licenses s))"
    by (simp add: wf_store_def)
  have "find (\<lambda>x. licenseKey x = licenseKey l \<and> pluginId x = pluginId l) (licenses s) = Some l"
    by (rule find_distinct_key [OF d mem]) simp_all
  then show ?thesis
    by (simp add: License_findOne_def)
qed

lemma validate_own:
  assumes "wf_store s" and "l \<in> set (licenses s)"
    and "licenseKey l \<noteq> []" and "pluginId l \<noteq> []"
  shows "validate s now ip ua (request_for l m) =
     (if is_expired l now
      then (License_update s (lic_id l) (\<lambda>x. x\<lparr>status := Expired\<rparr>),
            Invalid 200 ''License has expired'')
      else if status l \<noteq> Active
      then (s, Invalid 200 (''License is '' @ status_str (status l)))
      else (case truthy m of
              Some m' \<Rightarrow> handle_activation s now l (moment_diff_days (expiresAt l) now) m' ip ua
            | None \<Rightarrow> (s, valid_response l (moment_diff_days (expiresAt l) now))))"
proof -
  from assms(3) obtain c cs where k: "licenseKey l = c # cs" by (cases "licenseKey l") auto
  from assms(4) obtain d ds where p: "pluginId l = d # ds" by (cases "pluginId l") auto
  have f: "License_findOne s (c # cs) (d # ds) = Some l"
    using License_findOne_own [OF assms(1,2)] k p by simp
  show ?thesis
    using f by (simp add: validate_def request_for_def k p Let_def)
qed

lemma is_valid_valid_response [simp]: "is_valid (valid_response l d)"
  by (simp add: valid_response_def)

lemma find_map_update:
  "distinct (map k xs) \<Longrightarrow> x \<in> set xs \<Longrightarrow> k (f x) = k x \<Longrightarrow>
     find (\<lambda>y. k y = k x) (map (\<lambda>y. if k y = k x then f y else y) xs) = Some (f x)"
proof (induction xs)
  case Nil
  then show ?case by simp
next
  case (Cons y ys)
  show ?case
  proof (cases "k y = k x")
    case True
    with Cons.prems(1,2) have "y = x" by (auto simp: image_iff)
    with Cons.prems(3) show ?thesis by simp
  next
    case False
    with Cons.prems have "x \<in> set ys" and "distinct (map k ys)" by auto
    with Cons.IH Cons.prems(3) False show ?thesis by simp
  qed
qed

lemma License_findByPk_update:
  assumes "wf_store s" and "l \<in> set (licenses s)" and "lic_id (f l) = lic_id l"
  shows "License_findByPk (License_update s (lic_id l) f) (lic_id l) = Some (f l)"
proof -
  from assms(1) have d: "distinct (map lic_id (licenses s))" by (simp add: wf_store_def)
  show ?thesis
    unfolding License_findByPk_def License_update_def
    using find_map_update [OF d assms(2), of f] assms(3) by simp
qed

lemma License_findByPk_own:
  assumes "wf_store s" and "l \<in> set (licenses s)"
  shows "License_findByPk s (lic_id l) = Some l"
proof -
  from assms(1) have d: "distinct (map lic_id (licenses s))" by (simp add: wf_store_def)
  have "find (\<lambda>x. lic_id x = lic_id l) (licenses s) = Some l"
    by (rule find_distinct_key [OF d assms(2)]) simp_all
  then show ?thesis by (simp add: License_findByPk_def)
qed

lemma activations_License_update [simp]:
  "activations (License_update s i f) = activations s"
  by (simp add: License_update_def)

lemma find_Some_mem: "find P xs = Some x \<Longrightarrow> x \<in> set xs \<and> P x"
  by (induction xs) (auto split: if_splits)

lemma map_only_one:
  assumes "distinct (map k xs)" and "e \<in> set xs"
  shows "map (\<lambda>a. if k a = k e then f a else a) xs = map (\<lambda>a. if a = e then f e else a) xs"
proof (rule map_cong [OF refl])
  fix a
  assume "a \<in> set xs"
  with assms have "k a = k e \<longleftrightarrow> a = e"
    by (auto simp: distinct_map dest: inj_onD)
  then show "(if k a = k e then f a else a) = (if a = e then f e else a)"
    by auto
qed

lemma moment_diff_days_floor: "\<not> a < b \<Longrightarrow> moment_diff_days a b = (a - b) div ms_per_day"
  by (simp add: moment_diff_days_def)

lemma valid_response_fields:
  "valid_response l d = Valid v \<Longrightarrow>
     r_licenseId v = lic_id l \<and> daysRemaining v = d \<and> flags_of v"
  by (auto simp: valid_response_def flags_of_def)

lemma handle_activation_fields:
  "handle_activation s now l d m ip ua = (s', Valid v) \<Longrightarrow>
     r_licenseId v = lic_id l \<and> daysRemaining v = d \<and> flags_of v"
  by (auto simp: handle_activation_def Let_def split: option.splits if_splits
      dest!: valid_response_fields)

lemma wf_demo_store: "wf_store demo_store"
  by (simp add: wf_store_def demo_store_def)

lemma demo_license_stored: "demo_license \<in> set (licenses demo_store)"
  by (simp add: demo_store_def)

lemma demo_license_fields:
  "licenseKey demo_license \<noteq> []" "pluginId demo_license \<noteq> []"
  "status demo_license = Active" "expiresAt demo_license = 31536000000"
  by (simp_all add: demo_license_def)

lemma wf_revoked_store: "wf_store revoked_store"
  by (simp add: wf_store_def revoked_store_def)

lemma revoked_license_stored: "revoked_license \<in> set (licenses revoked_store)"
  by (simp add: revoked_store_def)

lemma revoked_license_fields:
  "licenseKey revoked_license \<noteq> []" "pluginId revoked_license \<noteq> []"
  "status revoked_license = Revoked" "expiresAt revoked_license = 31536000000"
  by (simp_all add: revoked_license_def demo_license_def)

lemma wf_activated_store: "wf_store activated_store"
  by (simp add: wf_store_def activated_store_def activated_license_def demo_license_def
      demo_activation_def)

lemma activated_license_stored: "activated_license \<in> set (licenses activated_store)"
  by (simp add: activated_store_def)

lemma activated_license_fields:
  "licenseKey activated_license \<noteq> []" "pluginId activated_license \<noteq> []"
  "status activated_license = Active" "expiresAt activated_license = 31536000000"
  "lic_id activated_license = 0" "maxActivations activated_license = 1"
  by (simp_all add: activated_license_def demo_license_def)

lemma activated_store_lookup:
  "Activation_findOne activated_store 0 ''A'' = Some demo_activation"
  "Activation_findOne activated_store 0 ''B'' = None"
  "activeActivations activated_store 0 = 1"
  by (simp_all add: Activation_findOne_def activeActivations_def license_activations_def
      activated_store_def demo_activation_def)

lemma demo_store_lookup:
  "Activation_findOne demo_store 0 ''A'' = None"
  "activeActivations demo_store 0 = 0"
  by (simp_all add: Activation_findOne_def activeActivations_def license_activations_def
      demo_store_def)

lemma License_update_same:
  assumes "wf_store s" and "l \<in> set (licenses s)" and "f l = l"
  shows "License_update s (lic_id l) f = s"
proof -
  from assms(1) have d: "distinct (map lic_id (licenses s))" by (simp add: wf_store_def)
  have "map (\<lambda>x. if lic_id x = lic_id l then f x else x) (licenses s) = map (\<lambda>x. x) (licenses s)"
  proof (rule map_cong [OF refl])
    fix x
    assume "x \<in> set (licenses s)"
    with d assms(2) have "lic_id x = lic_id l \<longleftrightarrow> x = l"
      by (auto simp: distinct_map dest: inj_onD)
    with assms(3) show "(if lic_id x = lic_id l then f x else x) = x" by auto
  qed
  then show ?thesis by (simp add: License_update_def)
qed

lemma map_after_update:
  "(\<And>x. g (f x) = g x) \<Longrightarrow> map g (map (\<lambda>l. if P l then f l else l) xs) = map g xs"
  by (induction xs) auto

lemma wf_store_License_update:
  assumes "wf_store s" and "\<And>x. lic_id (f x) = lic_id x" and "\<And>x. licenseKey (f x) = licenseKey x"
  shows "wf_store (License_update s i f)"
proof -
  let ?ls = "map (\<lambda>l. if lic_id l = i then f l else l) (licenses s)"
  have 1: "map lic_id ?ls = map lic_id (licenses s)"
    by (rule map_after_update) (rule assms(2))
  have 2: "map licenseKey ?ls = map licenseKey (licenses s)"
    by (rule map_after_update) (rule assms(3))
  have 3: "licenses (License_update s i f) = ?ls" "activations (License_update s i f) = activations s"
    by (simp_all add: License_update_def)
  show ?thesis
    using assms(1) unfolding wf_store_def 3 1 2 .
qed

lemma License_update_mem:
  "l \<in> set (licenses s) \<Longrightarrow> f l \<in> set (licenses (License_update s (lic_id l) f))"
  by (auto simp: License_update_def)

lemma request_for_status [simp]: "request_for (l\<lparr>status := st\<rparr>) m = request_for l m"
  by (simp add: request_for_def)

lemma validate_expired_license:
  assumes "wf_store s" and "l \<in> set (licenses s)"
    and "licenseKey l \<noteq> []" and "pluginId l \<noteq> []"
    and "status l = Expired"
  shows "fst (validate s now ip ua (request_for l m)) = s
       \<and> \<not> is_valid (snd (validate s now ip ua (request_for l m)))"
proof -
  have "l\<lparr>status := Expired\<rparr> = l" using assms(5) by simp
  then have "License_update s (lic_id l) (\<lambda>x. x\<lparr>status := Expired\<rparr>) = s"
    by (rule License_update_same [OF assms(1,2)])
  then show ?thesis
    using assms(5) by (simp add: validate_own [OF assms(1-4)])
qed

lemma validate_all_expired_license:
  assumes "wf_store s" and "l \<in> set (licenses s)"
    and "licenseKey l \<noteq> []" and "pluginId l \<noteq> []"
    and "status l = Expired"
  shows "fst (validate_all s (calls_for l cs)) = s
       \<and> (\<forall>r\<in>set (snd (validate_all s (calls_for l cs))). \<not> is_valid r)"
proof (induction cs)
  case Nil
  show ?case by (simp add: calls_for_def)
next
  case (Cons c cs)
  obtain now ip ua m where c: "c = (now, ip, ua, m)" by (cases c) auto
  obtain r where v: "validate s now ip ua (request_for l m) = (s, r)" and r: "\<not> is_valid r"
    using validate_expired_license [OF assms, of now ip ua m]
    by (cases "validate s now ip ua (request_for l m)") auto
  obtain rs where a: "validate_all s (calls_for l cs) = (s, rs)"
    and rs: "\<forall>r\<in>set rs. \<not> is_valid r"
    using Cons.IH by (cases "validate_all s (calls_for l cs)") auto
  have "validate_all s (calls_for l (c # cs)) = (s, r # rs)"
    using v a unfolding c calls_for_def by simp
  with r rs show ?case by simp
qed

lemma perpetual_expiry_ms: "perpetual_expiry = 4102358400000"
  by (simp add: perpetual_expiry_def Date_ymd_def days_from_civil_def ms_per_day_def)

lemma expiry_of_3_year: "expiry_of now ''3-year'' = Expires (now + 1095 * ms_per_day)"
  by (simp add: expiry_of_def LICENSE_VALIDITY_DAYS_def)

lemma expiry_of_perpetual: "expiry_of now ''perpetual'' = Expires perpetual_expiry"
  by (simp add: expiry_of_def)

lemma generate_created:
  assumes "truthy (g_pluginId b) = Some p" and "truthy (g_customerName b) = Some n"
    and "truthy (g_customerEmail b) = Some e" and "truthy (g_licenseType b) = Some t"
    and "expiry_of now t = Expires x"
    and "key \<notin> set (map licenseKey (licenses s))"
    and "fits_STRING key" and "fits_STRING cid" and "fits_STRING p" and "fits_STRING n"
    and "fits_STRING e"
    and "fits_INTEGER (case g_maxActivations b of None \<Rightarrow> 1 | Some k \<Rightarrow> k)"
  shows "\<exists>l. generate s now created key cid b = (s\<lparr>licenses := licenses s @ [l]\<rparr>, Generated l)
           \<and> lic_id l = fresh_uuid (map lic_id (licenses s)) \<and> licenseKey l = key
           \<and> pluginId l = p \<and> status l = Active \<and> issuedAt l = created \<and> expiresAt l = x
           \<and> activationCount l = 0 \<and> metadata l = Map.empty
           \<and> maxActivations l = (case g_maxActivations b of None \<Rightarrow> 1 | Some k \<Rightarrow> k)"
  using assms by (simp add: generate_def License_create_def Let_def)

lemma generate_returned:
  assumes "generate s now created key cid b = (s', Generated l)"
  shows "\<exists>t x. truthy (g_licenseType b) = Some t \<and> expiry_of now t = Expires x
           \<and> expiresAt l = x \<and> issuedAt l = created
           \<and> maxActivations l = (case g_maxActivations b of None \<Rightarrow> 1 | Some k \<Rightarrow> k)
           \<and> lic_id l = fresh_uuid (map lic_id (licenses s)) \<and> licenseKey l = key
           \<and> key \<notin> set (map licenseKey (licenses s)) \<and> activationCount l = 0
           \<and> s' = s\<lparr>licenses := licenses s @ [l]\<rparr>"
  using assms
  by (auto simp: generate_def License_create_def Let_def
      split: option.splits expiry.splits if_splits)

lemma fresh_uuid_greater: "x \<in> set xs \<Longrightarrow> x < fresh_uuid xs"
  by (induction xs) auto

lemma fresh_uuid_new: "fresh_uuid xs \<notin> set xs"
  using fresh_uuid_greater [of "fresh_uuid xs" xs] by auto

lemma wf_store_new_license:
  assumes "wf_store s" and "lic_id l = fresh_uuid (map lic_id (licenses s))"
    and "licenseKey l \<notin> set (map licenseKey (licenses s))"
  shows "wf_store (s\<lparr>licenses := licenses s @ [l]\<rparr>)"
  using assms fresh_uuid_new [of "map lic_id (licenses s)"]
  by (auto simp: wf_store_def)

lemma no_activations_of_new_license:
  assumes "wf_store s" and "lic_id l = fresh_uuid (map lic_id (licenses s))"
  shows "\<forall>a\<in>set (activations (s\<lparr>licenses := licenses s @ [l]\<rparr>)). licenseId a \<noteq> lic_id l"
proof
  fix a
  assume "a \<in> set (activations (s\<lparr>licenses := licenses s @ [l]\<rparr>))"
  with assms(1) have "licenseId a \<in> set (map lic_id (licenses s))"
    by (simp add: wf_store_def)
  with fresh_uuid_new [of "map lic_id (licenses s)"] show "licenseId a \<noteq> lic_id l"
    unfolding assms(2) by metis
qed

lemma validate_at_zero_cap:
  assumes "wf_store s" and "l \<in> set (licenses s)"
    and "licenseKey l \<noteq> []" and "pluginId l \<noteq> []"
    and "status l = Active" and "maxActivations l = 0"
    and "\<forall>a\<in>set (activations s). licenseId a \<noteq> lic_id l"
    and "now \<le> expiresAt l"
  shows "validate s now ip ua (request_for l m) =
           (s, case truthy m of
                 None \<Rightarrow> valid_response l (moment_diff_days (expiresAt l) now)
               | Some m' \<Rightarrow> Invalid 200 ''Maximum number of activations reached'')"
proof (cases "truthy m")
  case None
  then show ?thesis
    using assms(5,8) by (simp add: validate_own [OF assms(1-4)] is_expired_def)
next
  case (Some m')
  from assms(7) have none: "Activation_findOne s (lic_id l) m' = None"
    unfolding Activation_findOne_def find_None_iff by blast
  from assms(7) have "license_activations s (lic_id l) = []"
    by (simp add: license_activations_def filter_empty_conv)
  then have zero: "activeActivations s (lic_id l) = 0"
    by (simp add: activeActivations_def)
  show ?thesis
    using Some assms(5,6,8) none zero
    by (simp add: validate_own [OF assms(1-4)] is_expired_def handle_activation_def)
qed

lemma validate_all_at_zero_cap:
  assumes "wf_store s" and "l \<in> set (licenses s)"
    and "licenseKey l \<noteq> []" and "pluginId l \<noteq> []"
    and "status l = Active" and "maxActivations l = 0"
    and "\<forall>a\<in>set (activations s). licenseId a \<noteq> lic_id l"
  shows "\<forall>c\<in>set cs. fst c \<le> expiresAt l \<Longrightarrow>
         validate_all s (calls_for l cs) =
           (s, map (\<lambda>(now, ip, ua, m).
                      case truthy m of
                        None \<Rightarrow> valid_response l (moment_diff_days (expiresAt l) now)
                      | Some m' \<Rightarrow> Invalid 200 ''Maximum number of activations reached'') cs)"
proof (induction cs)
  case Nil
  show ?case by (simp add: calls_for_def)
next
  case (Cons c cs)
  obtain now ip ua m where c: "c = (now, ip, ua, m)" by (cases c) auto
  with Cons.prems have le: "now \<le> expiresAt l" by simp
  from Cons have ih: "validate_all s (calls_for l cs) =
           (s, map (\<lambda>(now, ip, ua, m).
                      case truthy m of
                        None \<Rightarrow> valid_response l (moment_diff_days (expiresAt l) now)
                      | Some m' \<Rightarrow> Invalid 200 ''Maximum number of activations reached'') cs)"
    by simp
  have "calls_for l (c # cs) = (now, ip, ua, request_for l m) # calls_for l cs"
    by (simp add: calls_for_def c)
  then show ?case
    using validate_at_zero_cap [OF assms le, of ip ua m] ih by (simp add: c)
qed

lemma validate_store_cases:
  "fst (validate s now ip ua b) = s
   \<or> (\<exists>l\<in>set (licenses s).
         fst (validate s now ip ua b) = License_update s (lic_id l) (\<lambda>x. x\<lparr>status := Expired\<rparr>))
   \<or> (\<exists>l\<in>set (licenses s). \<exists>m.
         fst (validate s now ip ua b) =
           License_update (Activation_insert s now (lic_id l) m ip ua) (lic_id l)
             (\<lambda>x. x\<lparr>activationCount := activationCount l + 1,
                     activatedAt := Some now, activatedBy := Some m\<rparr>))
   \<or> (\<exists>e\<in>set (activations s). fst (validate s now ip ua b) = Activation_touch s (act_id e) now)"
proof (cases "truthy (v_licenseKey b)")
  case None
  then show ?thesis by (simp add: validate_def)
next
  case k: (Some k)
  show ?thesis
  proof (cases "truthy (v_pluginId b)")
    case None
    then show ?thesis by (simp add: validate_def k)
  next
    case p: (Some p)
    show ?thesis
    proof (cases "License_findOne s k p")
      case None
      then show ?thesis by (simp add: validate_def k p)
    next
      case (Some l)
      then have mem: "l \<in> set (licenses s)"
        unfolding License_findOne_def by (blast dest: find_Some_mem)
      have v: "validate s now ip ua b =
        (if is_expired l now
         then (License_update s (lic_id l) (\<lambda>x. x\<lparr>status := Expired\<rparr>),
               Invalid 200 ''License has expired'')
         else if status l \<noteq> Active
         then (s, Invalid 200 (''License is '' @ status_str (status l)))
         else (case truthy (v_machineId b) of
                 Some m \<Rightarrow> handle_activation s now l (moment_diff_days (expiresAt l) now) m ip ua
               | None \<Rightarrow> (s, valid_response l (moment_diff_days (expiresAt l) now))))"
        by (simp add: validate_def k p Some Let_def)
      show ?thesis
      proof (cases "is_expired l now")
        case True
        with v mem show ?thesis by auto
      next
        case ne: False
        show ?thesis
        proof (cases "status l \<noteq> Active \<or> truthy (v_machineId b) = None")
          case True
          with v ne show ?thesis by auto
        next
          case False
          then obtain m where m: "truthy (v_machineId b) = Some m" and a: "status l = Active"
            by auto
          from v ne a m have h: "validate s now ip ua b =
              handle_activation s now l (moment_diff_days (expiresAt l) now) m ip ua"
            by simp
          show ?thesis
          proof (cases "Activation_findOne s (lic_id l) m")
            case None
            then have "fst (validate s now ip ua b) = s
              \<or> fst (validate s now ip ua b) =
                   License_update (Activation_insert s now (lic_id l) m ip ua) (lic_id l)
                     (\<lambda>x. x\<lparr>activationCount := activationCount l + 1,
                             activatedAt := Some now, activatedBy := Some m\<rparr>)"
              by (simp add: h handle_activation_def Activation_create_def Let_def)
            with mem show ?thesis by blast
          next
            case (Some e)
            then have "e \<in> set (activations s)"
              unfolding Activation_findOne_def by (blast dest: find_Some_mem)
            moreover from Some have "fst (validate s now ip ua b) = Activation_touch s (act_id e) now"
              by (simp add: h handle_activation_def)
            ultimately show ?thesis by blast
          qed
        qed
      qed
    qed
  qed
qed

lemma license_activations_License_update [simp]:
  "license_activations (License_update s j f) i = license_activations s i"
  by (simp add: license_activations_def)

lemma license_activations_map:
  assumes "\<And>a. licenseId (g a) = licenseId a"
  shows "license_activations (s\<lparr>activations := map g (activations s)\<rparr>) i
           = map g (license_activations s i)"
  by (simp add: license_activations_def filter_map o_def assms)

lemma count_inv_License_update:
  assumes "count_inv s" and "\<And>x. lic_id (f x) = lic_id x"
    and "\<And>x. activationCount (f x) = activationCount x"
    and "\<And>x. metadata (f x) = metadata x"
  shows "count_inv (License_update s i f)"
  unfolding count_inv_def
proof
  fix l'
  assume "l' \<in> set (licenses (License_update s i f))"
  then obtain x where x: "x \<in> set (licenses s)" and l': "l' = (if lic_id x = i then f x else x)"
    by (auto simp: License_update_def)
  from assms(1) x have
    "activationCount x = int (length (license_activations s (lic_id x))) \<and>
     (metadata x ''revokedAt'' = None \<longrightarrow>
        (\<forall>a\<in>set (license_activations s (lic_id x)). act_status a = Act_Active))"
    unfolding count_inv_def by blast
  then show "activationCount l' =
               int (length (license_activations (License_update s i f) (lic_id l'))) \<and>
             (metadata l' ''revokedAt'' = None \<longrightarrow>
                (\<forall>a\<in>set (license_activations (License_update s i f) (lic_id l')).
                   act_status a = Act_Active))"
    by (simp add: l' assms(2-4))
qed

lemma count_inv_activations_map:
  assumes "count_inv s" and "\<And>a. licenseId (g a) = licenseId a"
    and "\<And>a. act_status (g a) = act_status a"
  shows "count_inv (s\<lparr>activations := map g (activations s)\<rparr>)"
  using assms(1) unfolding count_inv_def
  by (simp add: license_activations_map [of g, OF assms(2)] assms(3))

lemma wf_store_activations_map:
  assumes "wf_store s" and "\<And>a. act_id (g a) = act_id a"
    and "\<And>a. licenseId (g a) = licenseId a"
  shows "wf_store (s\<lparr>activations := map g (activations s)\<rparr>)"
  using assms(1) unfolding wf_store_def
  by (simp add: o_def assms(2,3))

lemma inv_touch:
  assumes "wf_store s" and "count_inv s"
  shows "wf_store (Activation_touch s j now) \<and> count_inv (Activation_touch s j now)"
  unfolding Activation_touch_def
  by (intro conjI wf_store_activations_map [OF assms(1)] count_inv_activations_map [OF assms(2)])
     simp_all

lemma inv_expire:
  assumes "wf_store s" and "count_inv s"
  shows "wf_store (License_update s i (\<lambda>x. x\<lparr>status := Expired\<rparr>))
       \<and> count_inv (License_update s i (\<lambda>x. x\<lparr>status := Expired\<rparr>))"
  by (intro conjI wf_store_License_update [OF assms(1)] count_inv_License_update [OF assms(2)])
     simp_all

lemma wf_store_Activation_insert:
  assumes "wf_store s" and "l \<in> set (licenses s)"
  shows "wf_store (Activation_insert s now (lic_id l) m ip ua)"
  using assms fresh_uuid_new [of "map act_id (activations s)"]
  unfolding wf_store_def Activation_insert_def by auto

lemma license_activations_Activation_insert:
  "license_activations (Activation_insert s now j m ip ua) i =
     license_activations s i @
       (if i = j
        then [\<lparr>act_id = fresh_uuid (map act_id (activations s)), licenseId = j, machineId = m,
               ipAddress = ip, userAgent = ua, act_activatedAt = now, lastSeenAt = now,
               act_status = Act_Active\<rparr>]
        else [])"
  by (simp add: license_activations_def Activation_insert_def)

lemma inv_activate:
  assumes "wf_store s" and "count_inv s" and "l \<in> set (licenses s)"
  shows "wf_store (License_update (Activation_insert s now (lic_id l) m ip ua) (lic_id l)
            (\<lambda>x. x\<lparr>activationCount := activationCount l + 1,
                    activatedAt := Some now, activatedBy := Some m\<rparr>))
       \<and> count_inv (License_update (Activation_insert s now (lic_id l) m ip ua) (lic_id l)
            (\<lambda>x. x\<lparr>activationCount := activationCount l + 1,
                    activatedAt := Some now, activatedBy := Some m\<rparr>))"
proof
  let ?s1 = "Activation_insert s now (lic_id l) m ip ua"
  let ?f = "\<lambda>x. x\<lparr>activationCount := activationCount l + 1,
                    activatedAt := Some now, activatedBy := Some m\<rparr>"
  show "wf_store (License_update ?s1 (lic_id l) ?f)"
    by (rule wf_store_License_update [OF wf_store_Activation_insert [OF assms(1,3)]]) simp_all
  from assms(2,3) have cl: "activationCount l = int (length (license_activations s (lic_id l)))"
    unfolding count_inv_def by blast
  show "count_inv (License_update ?s1 (lic_id l) ?f)"
    unfolding count_inv_def
  proof
    fix l'
    assume "l' \<in> set (licenses (License_update ?s1 (lic_id l) ?f))"
    then obtain x where x: "x \<in> set (licenses s)"
      and l': "l' = (if lic_id x = lic_id l then ?f x else x)"
      by (auto simp: License_update_def Activation_insert_def)
    from assms(2) x have ix:
      "activationCount x = int (length (license_activations s (lic_id x)))"
      "metadata x ''revokedAt'' = None \<longrightarrow>
         (\<forall>a\<in>set (license_activations s (lic_id x)). act_status a = Act_Active)"
      unfolding count_inv_def by blast+
    show "activationCount l' =
            int (length (license_activations (License_update ?s1 (lic_id l) ?f) (lic_id l'))) \<and>
          (metadata l' ''revokedAt'' = None \<longrightarrow>
             (\<forall>a\<in>set (license_activations (License_update ?s1 (lic_id l) ?f) (lic_id l')).
                act_status a = Act_Active))"
    proof (cases "lic_id x = lic_id l")
      case True
      with ix cl show ?thesis
        by (simp add: l' license_activations_Activation_insert)
    next
      case False
      with ix show ?thesis
        by (simp add: l' license_activations_Activation_insert)
    qed
  qed
qed

lemma inv_validate:
  assumes "wf_store s" and "count_inv s"
  shows "wf_store (fst (validate s now ip ua b)) \<and> count_inv (fst (validate s now ip ua b))"
  using validate_store_cases [of s now ip ua b]
proof (elim disjE bexE exE)
  assume "fst (validate s now ip ua b) = s"
  with assms show ?thesis by simp
next
  fix l
  assume "fst (validate s now ip ua b) = License_update s (lic_id l) (\<lambda>x. x\<lparr>status := Expired\<rparr>)"
  with inv_expire [OF assms] show ?thesis by simp
next
  fix l m
  assume "l \<in> set (licenses s)"
    and "fst (validate s now ip ua b) =
           License_update (Activation_insert s now (lic_id l) m ip ua) (lic_id l)
             (\<lambda>x. x\<lparr>activationCount := activationCount l + 1,
                     activatedAt := Some now, activatedBy := Some m\<rparr>)"
  with inv_activate [OF assms, of l now m ip ua] show ?thesis by simp
next
  fix e
  assume "fst (validate s now ip ua b) = Activation_touch s (act_id e) now"
  with inv_touch [OF assms] show ?thesis by simp
qed

lemma License_findByPk_Some:
  "License_findByPk s i = Some l \<Longrightarrow> l \<in> set (licenses s) \<and> lic_id l = i"
  unfolding License_findByPk_def by (blast dest: find_Some_mem)

lemma revoke_parsed:
  "uuid_of_string sid = Some i \<Longrightarrow>
     revoke s now sid reason =
       (case License_findByPk s i of
          None \<Rightarrow> (s, Revoke_Error 404 ''License not found'')
        | Some l \<Rightarrow>
            (Activation_revoke_all
               (License_update s (lic_id l)
                  (\<lambda>x. x\<lparr>status := Revoked,
                         metadata := (metadata l)(''revocationReason'' := map_option JString reason,
                                                 ''revokedAt'' \<mapsto> JDate now)\<rparr>)) i,
             Revoke_Success ''License revoked successfully''))"
  by (simp add: revoke_def Let_def split: option.splits)

lemma revoke_unparsed:
  "uuid_of_string sid = None \<Longrightarrow>
     revoke s now sid reason = (s, Revoke_Error 500 ''Failed to revoke license'')"
  by (simp add: revoke_def)

lemma inv_revoke:
  assumes "wf_store s" and "count_inv s"
  shows "wf_store (fst (revoke s now sid reason)) \<and> count_inv (fst (revoke s now sid reason))"
proof (cases "uuid_of_string sid")
  case None
  with assms show ?thesis by (simp add: revoke_unparsed)
next
  case parsed: (Some i)
  show ?thesis
  proof (cases "License_findByPk s i")
  case None
  with assms parsed show ?thesis by (simp add: revoke_parsed)
next
  case (Some l)
  then have id: "lic_id l = i" by (simp add: License_findByPk_Some)
  let ?f = "\<lambda>x. x\<lparr>status := Revoked,
                    metadata := (metadata l)(''revocationReason'' := map_option JString reason,
                                            ''revokedAt'' \<mapsto> JDate now)\<rparr>"
  let ?g = "\<lambda>a. if licenseId a = i \<and> act_status a = Act_Active
                then a\<lparr>act_status := Act_Revoked\<rparr> else a"
  let ?s1 = "License_update s i ?f"
  have r: "fst (revoke s now sid reason) = ?s1\<lparr>activations := map ?g (activations ?s1)\<rparr>"
    by (simp add: revoke_parsed [OF parsed] Some id Activation_revoke_all_def)
  have wf1: "wf_store ?s1"
    by (rule wf_store_License_update [OF assms(1)]) simp_all
  have wf2: "wf_store (?s1\<lparr>activations := map ?g (activations ?s1)\<rparr>)"
    by (rule wf_store_activations_map [OF wf1]) simp_all
  have la: "license_activations (?s1\<lparr>activations := map ?g (activations ?s1)\<rparr>) j
              = map ?g (license_activations s j)" for j
  proof -
    have "license_activations (?s1\<lparr>activations := map ?g (activations ?s1)\<rparr>) j
            = map ?g (license_activations ?s1 j)"
      by (rule license_activations_map) simp
    then show ?thesis by simp
  qed
  have "count_inv (?s1\<lparr>activations := map ?g (activations ?s1)\<rparr>)"
    unfolding count_inv_def
  proof
    fix l'
    assume "l' \<in> set (licenses (?s1\<lparr>activations := map ?g (activations ?s1)\<rparr>))"
    then obtain x where x: "x \<in> set (licenses s)"
      and l': "l' = (if lic_id x = i then ?f x else x)"
      by (auto simp: License_update_def)
    from assms(2) x have ix:
      "activationCount x = int (length (license_activations s (lic_id x)))"
      "metadata x ''revokedAt'' = None \<longrightarrow>
         (\<forall>a\<in>set (license_activations s (lic_id x)). act_status a = Act_Active)"
      unfolding count_inv_def by blast+
    show "activationCount l' =
            int (length (license_activations (?s1\<lparr>activations := map ?g (activations ?s1)\<rparr>)
                           (lic_id l'))) \<and>
          (metadata l' ''revokedAt'' = None \<longrightarrow>
             (\<forall>a\<in>set (license_activations (?s1\<lparr>activations := map ?g (activations ?s1)\<rparr>)
                         (lic_id l')). act_status a = Act_Active))"
    proof (cases "lic_id x = i")
      case True
      with ix show ?thesis
        unfolding la by (simp add: l')
    next
      case False
      have "\<forall>a\<in>set (license_activations s (lic_id x)). ?g a = a"
        using False by (auto simp: license_activations_def)
      then have "map ?g (license_activations s (lic_id x)) = license_activations s (lic_id x)"
        by (simp add: map_idI)
      with ix False show ?thesis
        unfolding la by (simp add: l')
    qed
  qed
  with wf2 show ?thesis by (simp only: r)
qed
qed

lemma generate_store_cases:
  "fst (generate s now created key cid b) = s
   \<or> (\<exists>l. fst (generate s now created key cid b) = s\<lparr>licenses := licenses s @ [l]\<rparr>
          \<and> lic_id l = fresh_uuid (map lic_id (licenses s))
          \<and> licenseKey l \<notin> set (map licenseKey (licenses s))
          \<and> activationCount l = 0)"
proof (cases "generate s now created key cid b")
  case (Pair s' r)
  show ?thesis
  proof (cases r)
    case (Generate_Error c m)
    with Pair have "s' = s"
      by (auto simp: generate_def License_create_def Let_def
          split: option.splits expiry.splits if_splits)
    with Pair show ?thesis by simp
  next
    case (Generated l)
    with Pair generate_returned [of s now created key cid b s' l] show ?thesis
      by auto
  qed
qed

lemma inv_generate:
  assumes "wf_store s" and "count_inv s"
  shows "wf_store (fst (generate s now created key cid b)) \<and> count_inv (fst (generate s now created key cid b))"
  using generate_store_cases [of s now created key cid b]
proof (elim disjE exE conjE)
  assume "fst (generate s now created key cid b) = s"
  with assms show ?thesis by simp
next
  fix l
  assume g: "fst (generate s now created key cid b) = s\<lparr>licenses := licenses s @ [l]\<rparr>"
    and id: "lic_id l = fresh_uuid (map lic_id (licenses s))"
    and key: "licenseKey l \<notin> set (map licenseKey (licenses s))"
    and zero: "activationCount l = 0"
  have wf1: "wf_store (s\<lparr>licenses := licenses s @ [l]\<rparr>)"
    by (rule wf_store_new_license [OF assms(1) id key])
  from no_activations_of_new_license [OF assms(1) id]
  have none: "\<forall>a\<in>set (activations s). licenseId a \<noteq> lic_id l"
    by simp
  then have "license_activations (s\<lparr>licenses := licenses s @ [l]\<rparr>) (lic_id l) = []"
    by (simp add: license_activations_def filter_empty_conv)
  moreover have "license_activations (s\<lparr>licenses := licenses s @ [l]\<rparr>) j
                   = license_activations s j" for j
    by (simp add: license_activations_def)
  ultimately have "count_inv (s\<lparr>licenses := licenses s @ [l]\<rparr>)"
    using assms(2) zero unfolding count_inv_def by simp
  with wf1 show ?thesis by (simp only: g)
qed

lemma inv_handle:
  assumes "wf_store s \<and> count_inv s"
  shows "wf_store (handle s r) \<and> count_inv (handle s r)"
proof (cases r)
  case (Generate now created key cid b)
  with assms inv_generate [of s now created key cid b] show ?thesis by simp
next
  case (Validate now ip ua b)
  with assms inv_validate [of s now ip ua b] show ?thesis by simp
next
  case (Revoke now sid reason)
  with assms inv_revoke [of s now sid reason] show ?thesis by simp
qed

lemma inv_serve:
  "wf_store s \<and> count_inv s \<Longrightarrow> wf_store (serve s rs) \<and> count_inv (serve s rs)"
  unfolding serve_def
proof (induction rs arbitrary: s)
  case Nil
  then show ?case by simp
next
  case (Cons r rs)
  from Cons.prems have "wf_store (handle s r) \<and> count_inv (handle s r)"
    by (rule inv_handle)
  then have "wf_store (foldl handle (handle s r) rs) \<and> count_inv (foldl handle (handle s r) rs)"
    by (rule Cons.IH)
  then show ?case by simp
qed

lemma inv_empty_store: "wf_store empty_store \<and> count_inv empty_store"
  by (simp add: wf_store_def count_inv_def empty_store_def)
lemma uuid_of_demo_id: "uuid_of_string demo_id = Some 0"
  by (simp add: demo_id_def uuid_of_string_def hex_digits_def uuid_hyphens_def)

lemma generate_demo:
  "generate empty_store 0 0 ''CB-1A2B-3C4D-5E6F-7A8B-9C0D'' ''0123456789ABCDEF'' one_year_body
     = (demo_store, Generated demo_license)"
  by (simp add: generate_def License_create_def fits_STRING_def fits_INTEGER_def Let_def
      one_year_body_def three_year_body_def expiry_of_def LICENSE_VALIDITY_DAYS_def
      ms_per_day_def empty_store_def demo_store_def demo_license_def)

lemma validate_demo:
  "fst (validate demo_store 1000 (Some ''10.0.0.7'') (Some ''plugin/1.0'')
          (request_for demo_license (Some ''A''))) = activated_store"
proof -
  have "validate demo_store 1000 (Some ''10.0.0.7'') (Some ''plugin/1.0'')
          (request_for demo_license (Some ''A''))
        = handle_activation demo_store 1000 demo_license
            (moment_diff_days (expiresAt demo_license) 1000) ''A''
            (Some ''10.0.0.7'') (Some ''plugin/1.0'')"
    by (simp add: validate_own [OF wf_demo_store demo_license_stored demo_license_fields(1,2)]
        is_expired_def demo_license_fields)
  moreover have "fst (handle_activation demo_store 1000 demo_license
            (moment_diff_days (expiresAt demo_license) 1000) ''A''
            (Some ''10.0.0.7'') (Some ''plugin/1.0'')) = activated_store"
    by (simp add: handle_activation_def Activation_findOne_def activeActivations_def
        license_activations_def Let_def Activation_create_def Activation_insert_def
        fits_STRING_def License_update_def demo_store_def
        demo_license_def activated_store_def activated_license_def demo_activation_def)
  ultimately show ?thesis by simp
qed

lemma serve_activate_requests: "serve empty_store activate_requests = activated_store"
  by (simp add: serve_def activate_requests_def generate_demo validate_demo)

lemma serve_revoke_requests:
  "serve empty_store revoke_requests
     = fst (revoke activated_store 5000 demo_id (Some ''chargeback''))"
  using serve_activate_requests by (simp add: serve_def revoke_requests_def)

lemma revoke_activated_store:
  "licenses (fst (revoke activated_store 5000 demo_id (Some ''chargeback'')))
     = [activated_license\<lparr>status := Revoked,
          metadata := (metadata activated_license)
            (''revocationReason'' \<mapsto> JString ''chargeback'', ''revokedAt'' \<mapsto> JDate 5000)\<rparr>]"
  "activations (fst (revoke activated_store 5000 demo_id (Some ''chargeback'')))
     = [demo_activation\<lparr>act_status := Act_Revoked\<rparr>]"
  by (simp_all add: revoke_parsed [OF uuid_of_demo_id] License_findByPk_def License_update_def
      Activation_revoke_all_def activated_store_def activated_license_fields demo_activation_def)

section \<open>Claims\<close>

text \<open>
  C9. A validate call that carries no machine id (the field is absent, or the empty
  string, which JavaScript also takes as false), for the key and the plugin of a stored
  license that is active and not expired: the verdict is valid, and the store is the
  same afterwards as before, so that no Activation is created or modified and the
  license keeps its activationCount, activatedAt and activatedBy.
\<close>

theorem validate_without_machine_id:
  assumes "wf_store s" and "l \<in> set (licenses s)"
    and "licenseKey l \<noteq> []" and "pluginId l \<noteq> []"
    and "status l = Active" and "\<not> expiresAt l < now"
    and "truthy m = None"
  shows "fst (validate s now ip ua (request_for l m)) = s
       \<and> is_valid (snd (validate s now ip ua (request_for l m)))"
  using assms(5,6,7) by (simp add: validate_own [OF assms(1-4)] is_expired_def)

theorem validate_without_machine_id_witness:
  "wf_store demo_store \<and> demo_license \<in> set (licenses demo_store)
   \<and> licenseKey demo_license \<noteq> [] \<and> pluginId demo_license \<noteq> []
   \<and> status demo_license = Active \<and> \<not> expiresAt demo_license < 1000
   \<and> truthy None = None
   \<and> fst (validate demo_store 1000 None None (request_for demo_license None)) = demo_store
   \<and> is_valid (snd (validate demo_store 1000 None None (request_for demo_license None)))"
proof -
  have h: "\<not> expiresAt demo_license < 1000" "truthy None = None"
    by (simp_all add: demo_license_fields)
  show ?thesis
    using validate_without_machine_id
      [OF wf_demo_store demo_license_stored demo_license_fields(1,2,3) h, of None None]
      wf_demo_store demo_license_stored demo_license_fields(1,2,3) h
    by blast
qed

text \<open>
  C2 (as amended). A validate call for the key and the plugin of a stored license whose
  status is revoked returns an invalid verdict. When expiresAt is not before now, the
  message is \<^verbatim>\<open>License is revoked\<close> and the store is unchanged. When expiresAt is
  before now, the route writes the status expired over revoked and the message is
  \<^verbatim>\<open>License has expired\<close>: the test of line 1317 does not look at the status.
\<close>

theorem validate_revoked:
  assumes "wf_store s" and "l \<in> set (licenses s)"
    and "licenseKey l \<noteq> []" and "pluginId l \<noteq> []"
    and "status l = Revoked"
  shows "(\<not> expiresAt l < now \<longrightarrow>
            validate s now ip ua (request_for l m) = (s, Invalid 200 ''License is revoked''))
       \<and> (expiresAt l < now \<longrightarrow>
            snd (validate s now ip ua (request_for l m)) = Invalid 200 ''License has expired''
          \<and> License_findByPk (fst (validate s now ip ua (request_for l m))) (lic_id l)
              = Some (l\<lparr>status := Expired\<rparr>))"
  using assms(5) License_findByPk_update [OF assms(1,2), of "\<lambda>x. x\<lparr>status := Expired\<rparr>"]
  by (simp add: validate_own [OF assms(1-4)] is_expired_def)

theorem validate_revoked_witness:
  "wf_store revoked_store \<and> revoked_license \<in> set (licenses revoked_store)
   \<and> licenseKey revoked_license \<noteq> [] \<and> pluginId revoked_license \<noteq> []
   \<and> status revoked_license = Revoked
   \<and> \<not> expiresAt revoked_license < 1000
   \<and> validate revoked_store 1000 None None (request_for revoked_license (Some ''A''))
       = (revoked_store, Invalid 200 ''License is revoked'')
   \<and> expiresAt revoked_license < 31536000001
   \<and> snd (validate revoked_store 31536000001 None None (request_for revoked_license (Some ''A'')))
       = Invalid 200 ''License has expired''
   \<and> License_findByPk (fst (validate revoked_store 31536000001 None None
         (request_for revoked_license (Some ''A'')))) (lic_id revoked_license)
       = Some (revoked_license\<lparr>status := Expired\<rparr>)"
proof -
  have h: "\<not> expiresAt revoked_license < 1000" "expiresAt revoked_license < 31536000001"
    by (simp_all add: revoked_license_fields)
  note t = validate_revoked
    [OF wf_revoked_store revoked_license_stored revoked_license_fields(1,2,3),
      of _ None None "Some ''A''"]
  show ?thesis
    using t [of 1000] t [of 31536000001] h
      wf_revoked_store revoked_license_stored revoked_license_fields(1,2,3)
    by blast
qed

text \<open>
  The counterexample to C2 as first stated: on a revoked license whose expiresAt has
  passed, the call answers \<^verbatim>\<open>License has expired\<close> and the stored status becomes
  expired.
\<close>

theorem validate_revoked_past_expiry_counterexample:
  "status revoked_license = Revoked
   \<and> expiresAt revoked_license < 31536000001
   \<and> snd (validate revoked_store 31536000001 None None (request_for revoked_license None))
       = Invalid 200 ''License has expired''
   \<and> map status (licenses (fst (validate revoked_store 31536000001 None None
         (request_for revoked_license None)))) = [Expired]"
  by (simp add: validate_def request_for_def License_findOne_def License_update_def
      is_expired_def revoked_store_def revoked_license_def demo_license_def)




text \<open>
  C5 (as amended). Revoking under an id that is the UUID of a stored license answers
  with success, sets the license's status to revoked, writes the reason and the instant
  into its metadata under \<^verbatim>\<open>revocationReason\<close> and \<^verbatim>\<open>revokedAt\<close>, and turns every
  active Activation of the license to revoked, leaving every other Activation as it is.
  Revoking under an id that is a UUID of no stored license answers 404
  \<^verbatim>\<open>License not found\<close>, and under an id that is not a UUID at all 500
  \<^verbatim>\<open>Failed to revoke license\<close>; both leave the store as it is.
\<close>

theorem revoke_license:
  assumes "wf_store s"
  shows "(\<forall>l\<in>set (licenses s). uuid_of_string sid = Some (lic_id l) \<longrightarrow>
            snd (revoke s now sid reason) = Revoke_Success ''License revoked successfully''
          \<and> License_findByPk (fst (revoke s now sid reason)) (lic_id l)
              = Some (l\<lparr>status := Revoked,
                         metadata := (metadata l)(''revocationReason'' := map_option JString reason,
                                                 ''revokedAt'' \<mapsto> JDate now)\<rparr>)
          \<and> activations (fst (revoke s now sid reason))
              = map (\<lambda>a. if licenseId a = lic_id l \<and> act_status a = Act_Active
                          then a\<lparr>act_status := Act_Revoked\<rparr> else a) (activations s))
       \<and> (\<forall>i. uuid_of_string sid = Some i \<and> i \<notin> lic_id ` set (licenses s) \<longrightarrow>
            revoke s now sid reason = (s, Revoke_Error 404 ''License not found''))
       \<and> (uuid_of_string sid = None \<longrightarrow>
            revoke s now sid reason = (s, Revoke_Error 500 ''Failed to revoke license''))"
proof (intro conjI ballI allI impI)
  fix l
  assume l: "l \<in> set (licenses s)" and sid: "uuid_of_string sid = Some (lic_id l)"
  let ?upd = "\<lambda>x. x\<lparr>status := Revoked,
                      metadata := (metadata l)(''revocationReason'' := map_option JString reason,
                                              ''revokedAt'' \<mapsto> JDate now)\<rparr>"
  have own: "License_findByPk s (lic_id l) = Some l"
    by (rule License_findByPk_own [OF assms l])
  have pk: "License_findByPk (License_update s (lic_id l) ?upd) (lic_id l) = Some (?upd l)"
    by (rule License_findByPk_update [OF assms l]) simp
  have r: "revoke s now sid reason =
             (Activation_revoke_all (License_update s (lic_id l) ?upd) (lic_id l),
              Revoke_Success ''License revoked successfully'')"
    using own by (simp add: revoke_parsed [OF sid])
  show "snd (revoke s now sid reason) = Revoke_Success ''License revoked successfully''"
    by (simp add: r)
  show "License_findByPk (fst (revoke s now sid reason)) (lic_id l) = Some (?upd l)"
    using pk by (simp add: r Activation_revoke_all_def License_findByPk_def)
  show "activations (fst (revoke s now sid reason))
          = map (\<lambda>a. if licenseId a = lic_id l \<and> act_status a = Act_Active
                      then a\<lparr>act_status := Act_Revoked\<rparr> else a) (activations s)"
    by (simp add: r Activation_revoke_all_def)
next
  fix i
  assume "uuid_of_string sid = Some i \<and> i \<notin> lic_id ` set (licenses s)"
  then have sid: "uuid_of_string sid = Some i" and "i \<notin> lic_id ` set (licenses s)"
    by simp_all
  then have "License_findByPk s i = None"
    by (auto simp: License_findByPk_def find_None_iff)
  then show "revoke s now sid reason = (s, Revoke_Error 404 ''License not found'')"
    by (simp add: revoke_parsed [OF sid])
next
  assume "uuid_of_string sid = None"
  then show "revoke s now sid reason = (s, Revoke_Error 500 ''Failed to revoke license'')"
    by (rule revoke_unparsed)
qed

theorem revoke_license_witness:
  "wf_store activated_store \<and> activated_license \<in> set (licenses activated_store)
   \<and> uuid_of_string demo_id = Some (lic_id activated_license)
   \<and> snd (revoke activated_store 5000 demo_id (Some ''chargeback''))
       = Revoke_Success ''License revoked successfully''
   \<and> License_findByPk (fst (revoke activated_store 5000 demo_id (Some ''chargeback'')))
         (lic_id activated_license)
       = Some (activated_license\<lparr>status := Revoked,
                 metadata := (metadata activated_license)
                   (''revocationReason'' := map_option JString (Some ''chargeback''),
                    ''revokedAt'' \<mapsto> JDate 5000)\<rparr>)
   \<and> activations (fst (revoke activated_store 5000 demo_id (Some ''chargeback'')))
       = map (\<lambda>a. if licenseId a = lic_id activated_license \<and> act_status a = Act_Active
                   then a\<lparr>act_status := Act_Revoked\<rparr> else a) (activations activated_store)
   \<and> uuid_of_string unknown_id = Some 7 \<and> 7 \<notin> lic_id ` set (licenses activated_store)
   \<and> revoke activated_store 5000 unknown_id (Some ''chargeback'')
       = (activated_store, Revoke_Error 404 ''License not found'')
   \<and> uuid_of_string key_as_id = None
   \<and> revoke activated_store 5000 key_as_id (Some ''chargeback'')
       = (activated_store, Revoke_Error 500 ''Failed to revoke license'')"
proof -
  have h: "uuid_of_string demo_id = Some (lic_id activated_license)"
    "7 \<notin> lic_id ` set (licenses activated_store)"
    by (simp_all add: uuid_of_demo_id activated_license_fields activated_store_def)
  have u: "uuid_of_string unknown_id = Some 7" "uuid_of_string key_as_id = None"
    by (simp_all add: unknown_id_def key_as_id_def uuid_of_string_def hex_digits_def
        uuid_hyphens_def)
  note t = revoke_license [OF wf_activated_store, of _ 5000 "Some ''chargeback''"]
  show ?thesis
    using t [of demo_id] t [of unknown_id] t [of key_as_id] h u
      wf_activated_store activated_license_stored
    by blast
qed

text \<open>
  The counterexample to C5 as first stated: the license key in the place of the id, as
  in the README's example of a revocation, matches no license, and the answer is 500
  \<^verbatim>\<open>Failed to revoke license\<close>, not 404.
\<close>

theorem revoke_key_as_id_counterexample:
  "key_as_id = licenseKey activated_license
   \<and> revoke activated_store 5000 key_as_id (Some ''chargeback'')
       = (activated_store, Revoke_Error 500 ''Failed to revoke license'')"
proof -
  have "uuid_of_string key_as_id = None"
    by (simp add: key_as_id_def uuid_of_string_def hex_digits_def uuid_hyphens_def)
  then show ?thesis
    by (simp add: revoke_unparsed key_as_id_def activated_license_def demo_license_def)
qed

text \<open>
  C6. Whenever validate returns a valid verdict, the verdict is about a stored license,
  its daysRemaining is the floor of (expiresAt - now) over the milliseconds of a day,
  and each of the six warning flags is true exactly when daysRemaining is at most its
  threshold: 90, 60, 45, 30, 15 and 7.
\<close>

theorem valid_verdict_days:
  assumes "validate s now ip ua b = (s', Valid v)"
  shows "\<exists>l\<in>set (licenses s).
           r_licenseId v = lic_id l
         \<and> daysRemaining v = (expiresAt l - now) div ms_per_day
         \<and> show90DayWarning (warningThresholds v) = (daysRemaining v \<le> 90)
         \<and> show60DayWarning (warningThresholds v) = (daysRemaining v \<le> 60)
         \<and> show45DayWarning (warningThresholds v) = (daysRemaining v \<le> 45)
         \<and> show30DayWarning (warningThresholds v) = (daysRemaining v \<le> 30)
         \<and> show15DayWarning (warningThresholds v) = (daysRemaining v \<le> 15)
         \<and> showDailyWarning (warningThresholds v) = (daysRemaining v \<le> 7)"
proof -
  from assms obtain k p l where f: "License_findOne s k p = Some l"
    and ne: "\<not> is_expired l now"
    and rest: "(case truthy (v_machineId b) of
                  Some m \<Rightarrow> handle_activation s now l (moment_diff_days (expiresAt l) now) m ip ua
                | None \<Rightarrow> (s, valid_response l (moment_diff_days (expiresAt l) now))) = (s', Valid v)"
    by (auto simp: validate_def Let_def split: option.splits if_splits)
  from f have mem: "l \<in> set (licenses s)"
    unfolding License_findOne_def by (blast dest: find_Some_mem)
  from ne have d: "moment_diff_days (expiresAt l) now = (expiresAt l - now) div ms_per_day"
    by (simp add: is_expired_def moment_diff_days_floor)
  from rest have "r_licenseId v = lic_id l
      \<and> daysRemaining v = moment_diff_days (expiresAt l) now \<and> flags_of v"
    by (auto split: option.splits dest: handle_activation_fields valid_response_fields)
  with d mem show ?thesis
    unfolding flags_of_def by auto
qed

theorem valid_verdict_days_witness:
  "validate demo_store 28079995000 None None (request_for demo_license None)
     = (demo_store, Valid demo_verdict)
   \<and> (\<exists>l\<in>set (licenses demo_store).
           r_licenseId demo_verdict = lic_id l
         \<and> daysRemaining demo_verdict = (expiresAt l - 28079995000) div ms_per_day
         \<and> show90DayWarning (warningThresholds demo_verdict) = (daysRemaining demo_verdict \<le> 90)
         \<and> show60DayWarning (warningThresholds demo_verdict) = (daysRemaining demo_verdict \<le> 60)
         \<and> show45DayWarning (warningThresholds demo_verdict) = (daysRemaining demo_verdict \<le> 45)
         \<and> show30DayWarning (warningThresholds demo_verdict) = (daysRemaining demo_verdict \<le> 30)
         \<and> show15DayWarning (warningThresholds demo_verdict) = (daysRemaining demo_verdict \<le> 15)
         \<and> showDailyWarning (warningThresholds demo_verdict) = (daysRemaining demo_verdict \<le> 7))"
proof -
  have v: "valid_response demo_license (moment_diff_days (expiresAt demo_license) 28079995000)
             = Valid demo_verdict"
    by (simp add: valid_response_def moment_diff_days_def ms_per_day_def demo_verdict_def
        demo_license_def)
  have "validate demo_store 28079995000 None None (request_for demo_license None)
          = (demo_store,
             valid_response demo_license (moment_diff_days (expiresAt demo_license) 28079995000))"
    by (simp add: validate_own [OF wf_demo_store demo_license_stored demo_license_fields(1,2)]
        is_expired_def demo_license_fields)
  with v have h: "validate demo_store 28079995000 None None (request_for demo_license None)
                    = (demo_store, Valid demo_verdict)"
    by simp
  show ?thesis
    using valid_verdict_days [OF h] h by (rule_tac conjI)
qed



text \<open>
  C3. For a stored license that is active with expiresAt before now, a validate call
  with its key and plugin id answers \<^verbatim>\<open>License has expired\<close>, an invalid verdict, and
  leaves the license's row with the status expired. After that, whatever validate calls
  for this license follow, however many, at whatever instants and with or without a
  machine id, each returns an invalid verdict and the store stays as the first call
  left it, the status expired.
\<close>

theorem validate_expired_forever:
  assumes "wf_store s" and "l \<in> set (licenses s)"
    and "licenseKey l \<noteq> []" and "pluginId l \<noteq> []"
    and "status l = Active" and "expiresAt l < now"
  shows "snd (validate s now ip ua (request_for l m)) = Invalid 200 ''License has expired''
       \<and> \<not> is_valid (snd (validate s now ip ua (request_for l m)))
       \<and> License_findByPk (fst (validate s now ip ua (request_for l m))) (lic_id l)
           = Some (l\<lparr>status := Expired\<rparr>)
       \<and> fst (validate_all (fst (validate s now ip ua (request_for l m))) (calls_for l cs))
           = fst (validate s now ip ua (request_for l m))
       \<and> (\<forall>r\<in>set (snd (validate_all (fst (validate s now ip ua (request_for l m)))
                           (calls_for l cs))). \<not> is_valid r)"
proof -
  let ?s1 = "License_update s (lic_id l) (\<lambda>x. x\<lparr>status := Expired\<rparr>)"
  let ?l1 = "l\<lparr>status := Expired\<rparr>"
  have v: "validate s now ip ua (request_for l m) = (?s1, Invalid 200 ''License has expired'')"
    using assms(6) by (simp add: validate_own [OF assms(1-4)] is_expired_def)
  have pk: "License_findByPk ?s1 (lic_id l) = Some ?l1"
    by (rule License_findByPk_update [OF assms(1,2)]) simp
  have wf1: "wf_store ?s1"
    by (rule wf_store_License_update [OF assms(1)]) simp_all
  have mem1: "?l1 \<in> set (licenses ?s1)"
    by (rule License_update_mem [OF assms(2)])
  have "fst (validate_all ?s1 (calls_for ?l1 cs)) = ?s1
      \<and> (\<forall>r\<in>set (snd (validate_all ?s1 (calls_for ?l1 cs))). \<not> is_valid r)"
    by (rule validate_all_expired_license [OF wf1 mem1]) (simp_all add: assms(3,4))
  moreover have "calls_for ?l1 cs = calls_for l cs"
    by (simp add: calls_for_def)
  ultimately show ?thesis
    using pk by (simp add: v)
qed

theorem validate_expired_forever_witness:
  "wf_store demo_store \<and> demo_license \<in> set (licenses demo_store)
   \<and> licenseKey demo_license \<noteq> [] \<and> pluginId demo_license \<noteq> []
   \<and> status demo_license = Active \<and> expiresAt demo_license < 31536000001
   \<and> snd (validate demo_store 31536000001 None None (request_for demo_license None))
       = Invalid 200 ''License has expired''
   \<and> \<not> is_valid (snd (validate demo_store 31536000001 None None (request_for demo_license None)))
   \<and> License_findByPk (fst (validate demo_store 31536000001 None None
         (request_for demo_license None))) (lic_id demo_license)
       = Some (demo_license\<lparr>status := Expired\<rparr>)
   \<and> fst (validate_all (fst (validate demo_store 31536000001 None None
              (request_for demo_license None)))
          (calls_for demo_license [(31536000002, None, None, Some ''A''), (5, None, None, None)]))
       = fst (validate demo_store 31536000001 None None (request_for demo_license None))
   \<and> list_all (\<lambda>r. \<not> is_valid r)
        (snd (validate_all (fst (validate demo_store 31536000001 None None
                 (request_for demo_license None)))
           (calls_for demo_license [(31536000002, None, None, Some ''A''), (5, None, None, None)])))"
proof -
  have h: "expiresAt demo_license < 31536000001"
    by (simp add: demo_license_fields)
  show ?thesis
    using validate_expired_forever
      [OF wf_demo_store demo_license_stored demo_license_fields(1,2,3) h, of None None None
        "[(31536000002, None, None, Some ''A''), (5, None, None, None)]"]
      h wf_demo_store demo_license_stored demo_license_fields(1,2,3)
    unfolding list_all_iff by blast
qed

text \<open>
  C7 (as amended). When a generate request with the license type \<^verbatim>\<open>3-year\<close> returns a
  license, its expiresAt is exactly 1095 days (of 864e5 milliseconds) after the instant
  at which the route computes it, at line 1252. Its issuedAt is the instant that
  \<^verbatim>\<open>License.create\<close> reads afterwards, so that expiresAt is issuedAt plus 1095 days less
  the time between the two reads: exactly 1095 days after issuedAt when both reads give
  the same millisecond, and short of it otherwise. With \<^verbatim>\<open>perpetual\<close> the license
  expires at midnight UTC of 2099-12-31, and the expiry test of validate is false at
  every instant up to that one.
\<close>

theorem generate_expiry:
  assumes "generate s now created key cid b = (s', Generated l)"
  shows "l \<in> set (licenses s')
       \<and> (truthy (g_licenseType b) = Some ''3-year'' \<longrightarrow>
            expiresAt l = now + 1095 * ms_per_day \<and> issuedAt l = created
          \<and> expiresAt l = issuedAt l + 1095 * ms_per_day - (created - now)
          \<and> (created = now \<longrightarrow> expiresAt l = issuedAt l + 1095 * ms_per_day))
       \<and> (truthy (g_licenseType b) = Some ''perpetual'' \<longrightarrow>
            expiresAt l = Date_ymd 2099 12 31
          \<and> (\<forall>t. t \<le> Date_ymd 2099 12 31 \<longrightarrow> \<not> is_expired l t))"
proof -
  from generate_returned [OF assms] obtain t x
    where t: "truthy (g_licenseType b) = Some t" and x: "expiry_of now t = Expires x"
      and f: "expiresAt l = x" "issuedAt l = created" "s' = s\<lparr>licenses := licenses s @ [l]\<rparr>"
    by blast
  have 1: "l \<in> set (licenses s')" by (simp add: f(3))
  have 2: "truthy (g_licenseType b) = Some ''3-year'' \<longrightarrow>
            expiresAt l = now + 1095 * ms_per_day \<and> issuedAt l = created
          \<and> expiresAt l = issuedAt l + 1095 * ms_per_day - (created - now)
          \<and> (created = now \<longrightarrow> expiresAt l = issuedAt l + 1095 * ms_per_day)"
    using t x f(1,2) by (auto simp: expiry_of_3_year)
  have 3: "truthy (g_licenseType b) = Some ''perpetual'' \<longrightarrow>
            expiresAt l = Date_ymd 2099 12 31
          \<and> (\<forall>t. t \<le> Date_ymd 2099 12 31 \<longrightarrow> \<not> is_expired l t)"
    using t x f(1) by (auto simp: expiry_of_perpetual perpetual_expiry_def is_expired_def)
  from 1 2 3 show ?thesis by blast
qed

theorem generate_expiry_witness:
  "generate empty_store 1000 1000 ''CB-1A2B'' ''0123'' three_year_body
     = (\<lparr>licenses = [three_year_license], activations = []\<rparr>, Generated three_year_license)
   \<and> truthy (g_licenseType three_year_body) = Some ''3-year''
   \<and> three_year_license \<in> set (licenses \<lparr>licenses = [three_year_license], activations = []\<rparr>)
   \<and> expiresAt three_year_license = 1000 + 1095 * ms_per_day
   \<and> issuedAt three_year_license = 1000
   \<and> expiresAt three_year_license = issuedAt three_year_license + 1095 * ms_per_day
   \<and> generate empty_store 1000 1000 ''CB-1A2B'' ''0123'' perpetual_body
     = (\<lparr>licenses = [perpetual_license], activations = []\<rparr>, Generated perpetual_license)
   \<and> truthy (g_licenseType perpetual_body) = Some ''perpetual''
   \<and> expiresAt perpetual_license = Date_ymd 2099 12 31
   \<and> \<not> is_expired perpetual_license (Date_ymd 2099 12 31)"
proof -
  have g3: "generate empty_store 1000 1000 ''CB-1A2B'' ''0123'' three_year_body
     = (\<lparr>licenses = [three_year_license], activations = []\<rparr>, Generated three_year_license)"
    by (simp add: generate_def License_create_def fits_STRING_def fits_INTEGER_def Let_def
        three_year_body_def expiry_of_def LICENSE_VALIDITY_DAYS_def ms_per_day_def
        empty_store_def three_year_license_def)
  have gp: "generate empty_store 1000 1000 ''CB-1A2B'' ''0123'' perpetual_body
     = (\<lparr>licenses = [perpetual_license], activations = []\<rparr>, Generated perpetual_license)"
    by (simp add: generate_def License_create_def fits_STRING_def fits_INTEGER_def Let_def
        perpetual_body_def three_year_body_def expiry_of_def empty_store_def
        perpetual_license_def three_year_license_def)
  have t3: "truthy (g_licenseType three_year_body) = Some ''3-year''"
    by (simp add: three_year_body_def)
  have tp: "truthy (g_licenseType perpetual_body) = Some ''perpetual''"
    by (simp add: perpetual_body_def three_year_body_def)
  show ?thesis
    using generate_expiry [OF g3] generate_expiry [OF gp] g3 gp t3 tp
    by (simp only: simp_thms)
qed

text \<open>
  The counterexample to C7 as first stated: when the clock has moved on by a millisecond
  between the two reads, the three-year license expires one millisecond less than 1095
  days after its issuedAt.
\<close>

theorem generate_two_reads_counterexample:
  "map issuedAt (licenses (fst (generate empty_store 1000 1001 ''CB-1A2B'' ''0123''
     three_year_body))) = [1001]
   \<and> map expiresAt (licenses (fst (generate empty_store 1000 1001 ''CB-1A2B'' ''0123''
     three_year_body))) = [1001 + 1095 * ms_per_day - 1]"
  by (simp add: generate_def License_create_def fits_STRING_def fits_INTEGER_def Let_def
      three_year_body_def expiry_of_def LICENSE_VALIDITY_DAYS_def ms_per_day_def
      empty_store_def)

text \<open>
  C10. Generation takes maxActivations from the body, 1 when the body has none, and
  checks no lower bound. With maxActivations 0 (the required fields given, a license
  type with an expiry, a key that is not empty and that no license has yet, values that
  their columns take, in a well-formed store) a license is created on which, for any validate calls that follow
  one another up to its expiry, each call with a machine id answers
  \<^verbatim>\<open>Maximum number of activations reached\<close> and each call without one is valid; the
  store stays as generation left it.
\<close>

theorem generate_zero_max_activations:
  assumes "wf_store s" and "key \<noteq> []" and "key \<notin> set (map licenseKey (licenses s))"
    and "truthy (g_pluginId b) = Some p" and "truthy (g_customerName b) = Some n"
    and "truthy (g_customerEmail b) = Some e" and "truthy (g_licenseType b) = Some t"
    and "expiry_of now t = Expires x"
    and "\<forall>c\<in>set cs. fst c \<le> x"
    and "fits_STRING key" and "fits_STRING cid" and "fits_STRING p" and "fits_STRING n"
    and "fits_STRING e"
    and "fits_INTEGER (case g_maxActivations b of None \<Rightarrow> 1 | Some k \<Rightarrow> k)"
  shows "\<exists>l. generate s now created key cid b
               = (s\<lparr>licenses := licenses s @ [l]\<rparr>, Generated l)
           \<and> maxActivations l = (case g_maxActivations b of None \<Rightarrow> 1 | Some k \<Rightarrow> k)
           \<and> (g_maxActivations b = Some 0 \<longrightarrow>
                validate_all (s\<lparr>licenses := licenses s @ [l]\<rparr>) (calls_for l cs) =
                  (s\<lparr>licenses := licenses s @ [l]\<rparr>,
                   map (\<lambda>(now, ip, ua, m).
                          case truthy m of
                            None \<Rightarrow> valid_response l (moment_diff_days x now)
                          | Some m' \<Rightarrow> Invalid 200 ''Maximum number of activations reached'')
                     cs))"
proof -
  from generate_created [OF assms(4-8) assms(3) assms(10-15), of created]
  obtain l where g: "generate s now created key cid b
                       = (s\<lparr>licenses := licenses s @ [l]\<rparr>, Generated l)"
    and f: "lic_id l = fresh_uuid (map lic_id (licenses s))" "licenseKey l = key"
      "pluginId l = p" "status l = Active" "expiresAt l = x"
    and mx: "maxActivations l = (case g_maxActivations b of None \<Rightarrow> 1 | Some k \<Rightarrow> k)"
    by blast
  let ?s1 = "s\<lparr>licenses := licenses s @ [l]\<rparr>"
  have wf1: "wf_store ?s1"
    by (rule wf_store_new_license [OF assms(1) f(1)]) (simp only: f(2) assms(3) not_False_eq_True)
  have mem: "l \<in> set (licenses ?s1)" by simp
  have k: "licenseKey l \<noteq> []" by (simp add: f(2) assms(2))
  from assms(4) have p: "pluginId l \<noteq> []"
    unfolding f(3) by (cases "g_pluginId b" rule: truthy.cases) auto
  note none = no_activations_of_new_license [OF assms(1) f(1)]
  have "g_maxActivations b = Some 0 \<longrightarrow>
          validate_all ?s1 (calls_for l cs) =
            (?s1, map (\<lambda>(now, ip, ua, m).
                         case truthy m of
                           None \<Rightarrow> valid_response l (moment_diff_days x now)
                         | Some m' \<Rightarrow> Invalid 200 ''Maximum number of activations reached'') cs)"
  proof
    assume "g_maxActivations b = Some 0"
    with mx have z: "maxActivations l = 0" by simp
    from assms(9) have "\<forall>c\<in>set cs. fst c \<le> expiresAt l" by (simp add: f(5))
    from validate_all_at_zero_cap [OF wf1 mem k p f(4) z none this]
    show "validate_all ?s1 (calls_for l cs) =
            (?s1, map (\<lambda>(now, ip, ua, m).
                         case truthy m of
                           None \<Rightarrow> valid_response l (moment_diff_days x now)
                         | Some m' \<Rightarrow> Invalid 200 ''Maximum number of activations reached'') cs)"
      unfolding f(5) .
  qed
  with g mx show ?thesis by blast
qed

theorem generate_zero_max_activations_witness:
  "wf_store empty_store \<and> ''CB-1A2B'' \<noteq> []
   \<and> ''CB-1A2B'' \<notin> set (map licenseKey (licenses empty_store))
   \<and> truthy (g_pluginId zero_body) = Some ''advanced-analytics''
   \<and> truthy (g_customerName zero_body) = Some ''Ann''
   \<and> truthy (g_customerEmail zero_body) = Some ''ann@example.com''
   \<and> truthy (g_licenseType zero_body) = Some ''3-year''
   \<and> expiry_of 1000 ''3-year'' = Expires (1000 + 1095 * ms_per_day)
   \<and> list_all (\<lambda>c. fst c \<le> 1000 + 1095 * ms_per_day) demo_calls
   \<and> fits_STRING ''CB-1A2B'' \<and> fits_STRING ''0123'' \<and> fits_STRING ''advanced-analytics''
   \<and> fits_STRING ''Ann'' \<and> fits_STRING ''ann@example.com''
   \<and> fits_INTEGER (case g_maxActivations zero_body of None \<Rightarrow> 1 | Some k \<Rightarrow> k)
   \<and> g_maxActivations zero_body = Some 0
   \<and> (\<exists>l. generate empty_store 1000 1002 ''CB-1A2B'' ''0123'' zero_body
             = (empty_store\<lparr>licenses := licenses empty_store @ [l]\<rparr>, Generated l)
          \<and> maxActivations l = 0
          \<and> validate_all (empty_store\<lparr>licenses := licenses empty_store @ [l]\<rparr>)
               (calls_for l demo_calls)
             = (empty_store\<lparr>licenses := licenses empty_store @ [l]\<rparr>,
                [Invalid 200 ''Maximum number of activations reached'',
                 valid_response l (moment_diff_days (1000 + 1095 * ms_per_day) 3000),
                 Invalid 200 ''Maximum number of activations reached'']))"
proof -
  have h: "wf_store empty_store" "''CB-1A2B'' \<noteq> []"
    "''CB-1A2B'' \<notin> set (map licenseKey (licenses empty_store))"
    "truthy (g_pluginId zero_body) = Some ''advanced-analytics''"
    "truthy (g_customerName zero_body) = Some ''Ann''"
    "truthy (g_customerEmail zero_body) = Some ''ann@example.com''"
    "truthy (g_licenseType zero_body) = Some ''3-year''"
    "expiry_of 1000 ''3-year'' = Expires (1000 + 1095 * ms_per_day)"
    by (simp_all add: wf_store_def empty_store_def zero_body_def three_year_body_def
        expiry_of_3_year)
  have b: "\<forall>c\<in>set demo_calls. fst c \<le> 1000 + 1095 * ms_per_day"
    by (simp add: ms_per_day_def demo_calls_def)
  have z: "g_maxActivations zero_body = Some 0"
    by (simp add: zero_body_def)
  have f: "fits_STRING ''CB-1A2B''" "fits_STRING ''0123''" "fits_STRING ''advanced-analytics''"
    "fits_STRING ''Ann''" "fits_STRING ''ann@example.com''"
    "fits_INTEGER (case g_maxActivations zero_body of None \<Rightarrow> 1 | Some k \<Rightarrow> k)"
    by (simp_all add: fits_STRING_def fits_INTEGER_def zero_body_def)
  from generate_zero_max_activations [OF h b f, where created = 1002]
  obtain l where g: "generate empty_store 1000 1002 ''CB-1A2B'' ''0123'' zero_body
                       = (empty_store\<lparr>licenses := licenses empty_store @ [l]\<rparr>, Generated l)"
    and mx: "maxActivations l = (case g_maxActivations zero_body of None \<Rightarrow> 1 | Some k \<Rightarrow> k)"
    and va: "g_maxActivations zero_body = Some 0 \<longrightarrow>
               validate_all (empty_store\<lparr>licenses := licenses empty_store @ [l]\<rparr>)
                 (calls_for l demo_calls)
               = (empty_store\<lparr>licenses := licenses empty_store @ [l]\<rparr>,
                  map (\<lambda>(now, ip, ua, m).
                         case truthy m of
                           None \<Rightarrow> valid_response l (moment_diff_days (1000 + 1095 * ms_per_day) now)
                         | Some m' \<Rightarrow> Invalid 200 ''Maximum number of activations reached'') demo_calls)"
    by blast
  from mx z have mx0: "maxActivations l = 0"
    by (simp only: option.case)
  have m: "map (\<lambda>(now, ip, ua, m).
                  case truthy m of
                    None \<Rightarrow> valid_response l (moment_diff_days (1000 + 1095 * ms_per_day) now)
                  | Some m' \<Rightarrow> Invalid 200 ''Maximum number of activations reached'') demo_calls
           = [Invalid 200 ''Maximum number of activations reached'',
              valid_response l (moment_diff_days (1000 + 1095 * ms_per_day) 3000),
              Invalid 200 ''Maximum number of activations reached'']"
    by (simp only: demo_calls_def list.map case_prod_conv truthy.simps option.case)
  from va z have "validate_all (empty_store\<lparr>licenses := licenses empty_store @ [l]\<rparr>)
                    (calls_for l demo_calls)
             = (empty_store\<lparr>licenses := licenses empty_store @ [l]\<rparr>,
                [Invalid 200 ''Maximum number of activations reached'',
                 valid_response l (moment_diff_days (1000 + 1095 * ms_per_day) 3000),
                 Invalid 200 ''Maximum number of activations reached''])"
    unfolding m by (rule mp)
  with g mx0 have "\<exists>l. generate empty_store 1000 1002 ''CB-1A2B'' ''0123'' zero_body
             = (empty_store\<lparr>licenses := licenses empty_store @ [l]\<rparr>, Generated l)
          \<and> maxActivations l = 0
          \<and> validate_all (empty_store\<lparr>licenses := licenses empty_store @ [l]\<rparr>) (calls_for l demo_calls)
             = (empty_store\<lparr>licenses := licenses empty_store @ [l]\<rparr>,
                [Invalid 200 ''Maximum number of activations reached'',
                 valid_response l (moment_diff_days (1000 + 1095 * ms_per_day) 3000),
                 Invalid 200 ''Maximum number of activations reached''])"
    by blast
  moreover from b have "list_all (\<lambda>c. fst c \<le> 1000 + 1095 * ms_per_day) demo_calls"
    unfolding list_all_iff .
  ultimately show ?thesis
    using h z f by (intro conjI)
qed

text \<open>
  C1 (as amended). After any finite sequence of generate, validate and revoke requests
  served from the empty store, every license's activationCount is the number of the
  Activation records of that license, whatever their status; and for every license that
  has not been revoked (its metadata has no \<^verbatim>\<open>revokedAt\<close>) it is the number of the
  active ones. Revoking turns the Activations to revoked and leaves the counter.
\<close>

theorem activationCount_counts_records:
  "\<forall>l\<in>set (licenses (serve empty_store rs)).
     activationCount l = int (length (license_activations (serve empty_store rs) (lic_id l)))
   \<and> (metadata l ''revokedAt'' = None \<longrightarrow>
        activeActivations (serve empty_store rs) (lic_id l) = activationCount l)"
proof
  fix l
  assume l: "l \<in> set (licenses (serve empty_store rs))"
  from inv_serve [OF inv_empty_store, of rs] have "count_inv (serve empty_store rs)" ..
  with l have c: "activationCount l = int (length (license_activations (serve empty_store rs) (lic_id l)))"
    and a: "metadata l ''revokedAt'' = None \<longrightarrow>
       (\<forall>a\<in>set (license_activations (serve empty_store rs) (lic_id l)). act_status a = Act_Active)"
    unfolding count_inv_def by blast+
  have "metadata l ''revokedAt'' = None \<longrightarrow>
          activeActivations (serve empty_store rs) (lic_id l) = activationCount l"
  proof
    assume "metadata l ''revokedAt'' = None"
    with a have "filter (\<lambda>a. act_status a = Act_Active)
                   (license_activations (serve empty_store rs) (lic_id l))
                 = license_activations (serve empty_store rs) (lic_id l)"
      by (simp add: filter_id_conv)
    with c show "activeActivations (serve empty_store rs) (lic_id l) = activationCount l"
      by (simp add: activeActivations_def)
  qed
  with c show "activationCount l = int (length (license_activations (serve empty_store rs) (lic_id l)))
      \<and> (metadata l ''revokedAt'' = None \<longrightarrow>
            activeActivations (serve empty_store rs) (lic_id l) = activationCount l)"
    by simp
qed

theorem activationCount_counts_records_witness:
  "activated_license \<in> set (licenses (serve empty_store activate_requests))
   \<and> metadata activated_license ''revokedAt'' = None
   \<and> activationCount activated_license
       = int (length (license_activations (serve empty_store activate_requests)
                        (lic_id activated_license)))
   \<and> activeActivations (serve empty_store activate_requests) (lic_id activated_license)
       = activationCount activated_license"
proof -
  have h: "activated_license \<in> set (licenses (serve empty_store activate_requests))"
    by (simp add: serve_activate_requests activated_license_stored)
  have m: "metadata activated_license ''revokedAt'' = None"
    by (simp add: activated_license_def demo_license_def)
  show ?thesis
    using activationCount_counts_records [of activate_requests] h m by blast
qed

text \<open>
  The counterexample to C1 as first stated: once a license with an activation is
  revoked, the one Activation is revoked, none is active, and the activationCount is
  still 1.
\<close>

theorem activationCount_after_revoke_counterexample:
  "map lic_id (licenses (serve empty_store revoke_requests)) = [0]
   \<and> map activationCount (licenses (serve empty_store revoke_requests)) = [1]
   \<and> activeActivations (serve empty_store revoke_requests) 0 = 0"
  by (simp add: serve_revoke_requests activeActivations_def license_activations_def
      revoke_activated_store activated_license_def demo_license_def demo_activation_def)

end
